theory Spec2Isabelle
  imports Main "HOL-Library.Word" "HOL-Library.AList"
begin

unbundle bit_operations_syntax

section \<open>Byte strings, exceptions and the external libraries\<close>

text \<open>
  The package \<^verbatim>\<open>nipsi\<close> is written in Python on top of four libraries that are not
  part of the repository: \<^verbatim>\<open>charm\<close> (the elliptic-curve group), \<^verbatim>\<open>cryptography\<close>
  (AES-CBC, AES-GCM), \<^verbatim>\<open>hashlib\<close> (SHA-256) and \<^verbatim>\<open>mmh3\<close> (MurmurHash3). The repository's
  own functions are translated below; what the libraries compute is a parameter of each
  translated function, and every draw from a random source (\<^verbatim>\<open>os.urandom\<close>,
  \<^verbatim>\<open>group.random\<close>) is an explicit argument.

  A Python \<^verbatim>\<open>bytes\<close> value is a list of 8-bit words, a Python \<^verbatim>\<open>int\<close> is an \<open>int\<close>, and an
  exception that leaves a function is the \<open>Inl\<close> branch of its result.
\<close>

type_synonym byte = "8 word"
type_synonym bytes = "byte list"

datatype error =
  ValueError | AttributeError | InvalidTag | OverflowError | AssertionError | IndexError
  | ZeroDivisionError | KeyError | TypeError

text \<open>\<^verbatim>\<open>int.from_bytes(b, 'big')\<close>.\<close>

definition int_from_bytes :: "bytes \<Rightarrow> int" where
  "int_from_bytes bs = foldl (\<lambda>acc b. acc * 256 + uint b) 0 bs"

text \<open>
  \<^verbatim>\<open>i.to_bytes(n, 'big')\<close>: the \<open>n\<close> big-endian digits of \<open>i\<close>; Python raises
  \<^verbatim>\<open>OverflowError\<close> for a negative \<open>i\<close> and for one that does not fit into \<open>n\<close> bytes.
\<close>

definition be_bytes :: "nat \<Rightarrow> int \<Rightarrow> bytes" where
  "be_bytes n i = map (\<lambda>j. word_of_int (i div 256 ^ (n - 1 - j))) [0..<n]"

definition to_bytes :: "int \<Rightarrow> nat \<Rightarrow> error + bytes" where
  "to_bytes i n = (if i < 0 \<or> 256 ^ n \<le> i then Inl OverflowError else Inr (be_bytes n i))"

text \<open>\<^verbatim>\<open>k.bit_length()\<close>: the number of binary digits of \<open>|k|\<close>.\<close>

fun bitlen_nat :: "nat \<Rightarrow> nat" where
  "bitlen_nat n = (if n = 0 then 0 else Suc (bitlen_nat (n div 2)))"

definition bit_length :: "int \<Rightarrow> nat" where
  "bit_length k = bitlen_nat (nat \<bar>k\<bar>)"

text \<open>
  \<^verbatim>\<open>os.urandom(n)\<close>: the first \<open>n\<close> bytes of the entropy stream \<open>ent\<close>; a negative \<open>n\<close>
  raises \<^verbatim>\<open>ValueError\<close>.
\<close>

definition os_urandom :: "(nat \<Rightarrow> byte) \<Rightarrow> int \<Rightarrow> error + bytes" where
  "os_urandom ent n = (if n < 0 then Inl ValueError else Inr (map ent [0..<nat n]))"

text \<open>
  \<^verbatim>\<open>Cipher(algorithms.AES(key), modes.CBC(iv), backend=default_backend())\<close>. The library
  refuses (with \<^verbatim>\<open>ValueError\<close>) an AES key that is not 16, 24 or 32 bytes long and an
  initialisation vector that is not one block long. The cipher object is the function
  from a plaintext to \<^verbatim>\<open>encryptor.update(pt) + encryptor.finalize()\<close>; \<open>aes_cbc\<close> is the
  library's AES in CBC mode without padding.
\<close>

type_synonym cipher = "bytes \<Rightarrow> bytes"

definition new_cipher :: "(bytes \<Rightarrow> bytes \<Rightarrow> cipher) \<Rightarrow> bytes \<Rightarrow> bytes \<Rightarrow> error + cipher" where
  "new_cipher aes_cbc key iv =
     (if length key \<notin> {16, 24, 32} \<or> length iv \<noteq> 16 then Inl ValueError
      else Inr (aes_cbc key iv))"

text \<open>
  The group of \<^verbatim>\<open>charm\<close>'s \<^verbatim>\<open>ECGroup(prime256v1)\<close>: \<open>g_order\<close> is \<^verbatim>\<open>group.order()\<close>,
  \<open>g_mul\<close> is \<^verbatim>\<open>*\<close> on points, \<open>g_pow\<close> is \<^verbatim>\<open>**\<close> of a point by a scalar or an integer,
  \<open>g_hash\<close> is \<^verbatim>\<open>group.hash(bytes, G)\<close>, and the last four fields are
  \<^verbatim>\<open>group.serialize\<close> and \<^verbatim>\<open>group.deserialize\<close> on points and on scalars.
\<close>

record 'g ecgroup =
  g_order :: int
  g_mul :: "'g \<Rightarrow> 'g \<Rightarrow> 'g"
  g_pow :: "'g \<Rightarrow> int \<Rightarrow> 'g"
  g_hash :: "bytes \<Rightarrow> 'g"
  g_serialize :: "'g \<Rightarrow> bytes"
  g_deserialize :: "bytes \<Rightarrow> 'g"
  zr_serialize :: "int \<Rightarrow> bytes"
  zr_deserialize :: "bytes \<Rightarrow> int"

text \<open>
  A scalar (an element of \<^verbatim>\<open>ZR\<close>) is the integer in \<open>{0..<q}\<close> that represents it. The
  arithmetic of scalars is arithmetic modulo \<open>q\<close>; mixing a scalar with a Python integer
  reduces the integer first, which gives the same residue.
\<close>

definition zr :: "int \<Rightarrow> int \<Rightarrow> int" where
  "zr q x = x mod q"

text \<open>Python's \<^verbatim>\<open>sum(xs)\<close> over scalars: a left fold that starts at the integer 0.\<close>

definition zr_sum :: "int \<Rightarrow> int list \<Rightarrow> int" where
  "zr_sum q xs = foldl (\<lambda>acc x. zr q (acc + x)) 0 xs"

definition zr_neg :: "int \<Rightarrow> int \<Rightarrow> int" where
  "zr_neg q x = zr q (- x)"

section \<open>The PRF of the two-client and the Bloom-filter schemes\<close>

text \<open>
  \<^verbatim>\<open>Cardinality._prf\<close> of \<^verbatim>\<open>twoclient.py\<close> and \<^verbatim>\<open>CardinalityEfficient._prf\<close> of
  \<^verbatim>\<open>multiclient.py\<close> are the same function:
  \<^verbatim>\<open>
    padding_len = 16 - (len(pt) % 16)
    pt = pt + b'\0' * padding_len
    encryptor = cipher.encryptor()
    return encryptor.update(pt) + encryptor.finalize()
  \<close>
\<close>

definition zero_pad :: "bytes \<Rightarrow> bytes" where
  "zero_pad pt = (let padding_len = 16 - (length pt mod 16) in pt @ replicate padding_len 0)"

definition prf_aes :: "cipher \<Rightarrow> bytes \<Rightarrow> bytes" where
  "prf_aes cipher pt = cipher (zero_pad pt)"

text \<open>
  A stand-in for AES-CBC, used only where a statement is run on concrete data: it keeps
  the length of its input and is injective for a fixed key, as every block cipher mode is.
\<close>

definition demo_cbc :: "bytes \<Rightarrow> bytes \<Rightarrow> cipher" where
  "demo_cbc key iv data = map (\<lambda>b. b XOR (case key of [] \<Rightarrow> 0 | k0 # _ \<Rightarrow> k0)) data"

text \<open>
  A stand-in for the curve, used in the same way: the cyclic group of the prime order 5.
  Its five points are \<open>P0\<close> (the identity) to \<open>P4\<close>; the point \<open>Pi\<close> is the \<open>i\<close>-th power
  of \<open>P1\<close>, the product adds the indices modulo 5 and the power \<open>a ** x\<close> multiplies the
  index of \<open>a\<close> by \<open>x\<close>. A point is serialised as the one byte that holds its index.
\<close>

datatype point5 = P0 | P1 | P2 | P3 | P4

fun point5_index :: "point5 \<Rightarrow> int" where
  "point5_index P0 = 0"
| "point5_index P1 = 1"
| "point5_index P2 = 2"
| "point5_index P3 = 3"
| "point5_index P4 = 4"

definition point5_of :: "int \<Rightarrow> point5" where
  "point5_of x =
     (let r = x mod 5
      in if r = 0 then P0 else if r = 1 then P1 else if r = 2 then P2
         else if r = 3 then P3 else P4)"

definition demo_group :: "point5 ecgroup" where
  "demo_group =
     \<lparr>g_order = 5,
      g_mul = (\<lambda>a b. point5_of (point5_index a + point5_index b)),
      g_pow = (\<lambda>a x. point5_of (point5_index a * x)),
      g_hash = (\<lambda>bs. point5_of (int_from_bytes bs)),
      g_serialize = (\<lambda>a. [word_of_int (point5_index a)]),
      g_deserialize = (\<lambda>bs. point5_of (int_from_bytes bs)),
      zr_serialize = (\<lambda>x. [word_of_int x]),
      zr_deserialize = int_from_bytes\<rparr>"

section \<open>Multi-client cardinality: key generation\<close>

text \<open>
  The attributes of a scheme object of \<^verbatim>\<open>multiclient.py\<close>. \<^verbatim>\<open>__init__\<close> assigns only
  \<^verbatim>\<open>group\<close> and \<^verbatim>\<open>g\<close>; \<^verbatim>\<open>client_count\<close>, \<^verbatim>\<open>m\<close> and \<^verbatim>\<open>k\<close> do not exist until something
  assigns them, and the classes define no default for them.
\<close>

record 'g scheme =
  gen :: 'g
  client_count :: "int option"
  attr_m :: "int option"
  attr_k :: "int option"

text \<open>
  \<^verbatim>\<open>Cardinality.setup\<close>; \<open>rnd i\<close> is the \<open>i\<close>-th value drawn by \<^verbatim>\<open>group.random(ZR)\<close>:
  \<^verbatim>\<open>
    self.client_count = client_count
    usks = [self.group.random(ZR) for _ in range(client_count-1)]
    usks.append(-sum(usks))
    return usks
  \<close>
\<close>

definition mc_setup ::
  "'g ecgroup \<Rightarrow> (nat \<Rightarrow> int) \<Rightarrow> 'g scheme \<Rightarrow> int \<Rightarrow> int \<Rightarrow> 'g scheme \<times> int list" where
  "mc_setup G rnd self secpar n =
     (let q = g_order G;
          usks = map (\<lambda>i. zr q (rnd i)) [0..<nat (n - 1)]
      in (self\<lparr>client_count := Some n\<rparr>, usks @ [zr_neg q (zr_sum q usks)]))"

section \<open>Multi-client cardinality with Bloom filters: key generation\<close>

text \<open>
  The Shamir polynomial of \<^verbatim>\<open>CardinalityEfficient.setup\<close> and \<^verbatim>\<open>Threshold.encrypt\<close>:
  \<^verbatim>\<open>sum([c * x**i for i, c in enumerate(cs)])\<close>.
\<close>

definition shamir_poly :: "int \<Rightarrow> int list \<Rightarrow> int \<Rightarrow> int" where
  "shamir_poly q cs x = zr_sum q (map (\<lambda>(i, c). zr q (c * x ^ i)) (zip [0..<length cs] cs))"

text \<open>
  \<^verbatim>\<open>CardinalityEfficient.setup\<close>; \<open>ent\<close> feeds \<^verbatim>\<open>os.urandom\<close> and \<open>rnd\<close> feeds
  \<^verbatim>\<open>group.random(ZR)\<close>:
  \<^verbatim>\<open>
    self.m = m
    self.k = k
    phi_key = os.urandom(secpar // 8)
    cs = [0] + [self.group.random(ZR) for i in range(self.client_count)]
    def f(x):
        return sum([c * x**i for i, c in enumerate(cs)])
    usks = [(phi_key, f(i), f(self.client_count + i))
            for i in range(1, 1 + self.client_count)]
    return usks
  \<close>
  Reading \<^verbatim>\<open>self.client_count\<close> before anything assigned it raises \<^verbatim>\<open>AttributeError\<close>.
\<close>

definition eff_setup ::
  "'g ecgroup \<Rightarrow> (nat \<Rightarrow> byte) \<Rightarrow> (nat \<Rightarrow> int) \<Rightarrow> 'g scheme \<Rightarrow> int \<Rightarrow> int \<Rightarrow> int \<Rightarrow> int
     \<Rightarrow> 'g scheme \<times> (error + (bytes \<times> int \<times> int) list)" where
  "eff_setup G ent rnd self secpar n m k =
     (let self' = self\<lparr>attr_m := Some m, attr_k := Some k\<rparr>
      in case os_urandom ent (secpar div 8) of
           Inl e \<Rightarrow> (self', Inl e)
         | Inr phi_key \<Rightarrow>
             (case client_count self' of
                None \<Rightarrow> (self', Inl AttributeError)
              | Some cc \<Rightarrow>
                  (let q = g_order G;
                       cs = 0 # map (\<lambda>i. zr q (rnd i)) [0..<nat cc];
                       f = shamir_poly q cs
                   in (self', Inr (map (\<lambda>i. (phi_key, f i, f (cc + i))) [1..cc])))))"

section \<open>Bloom filters\<close>

text \<open>
  Indexing a Python sequence of length \<open>n\<close> with \<open>i\<close>: a negative index counts from the
  end, and an index outside \<open>-n \<le> i < n\<close> raises \<^verbatim>\<open>IndexError\<close>.
\<close>

definition py_index :: "nat \<Rightarrow> int \<Rightarrow> error + nat" where
  "py_index n i =
     (if 0 \<le> i \<and> i < int n then Inr (nat i)
      else if - int n \<le> i \<and> i < 0 then Inr (nat (int n + i))
      else Inl IndexError)"

text \<open>
  \<^verbatim>\<open>BloomFilter.BitString\<close>: the attribute \<^verbatim>\<open>l\<close> and the byte array \<^verbatim>\<open>_bs\<close>.
  \<^verbatim>\<open>
    def __init__(self, l):
        self.l = l
        self._bs = bytearray((l + 7) // 8)
  \<close>
  \<^verbatim>\<open>bytearray(n)\<close> raises \<^verbatim>\<open>ValueError\<close> for a negative \<open>n\<close>.
\<close>

record bitstring =
  bs_l :: int
  bs_bytes :: bytes

definition BitString_init :: "int \<Rightarrow> error + bitstring" where
  "BitString_init l =
     (if (l + 7) div 8 < 0 then Inl ValueError
      else Inr \<lparr>bs_l = l, bs_bytes = replicate (nat ((l + 7) div 8)) 0\<rparr>)"

text \<open>
  \<^verbatim>\<open>
    def __getitem__(self, key):
        byte_index = key // 8
        byte = self._bs[byte_index]
        shift = key % 8
        bit_index = 1 << shift
        return (byte & bit_index) >> shift
  \<close>
\<close>

definition bs_getitem :: "bitstring \<Rightarrow> int \<Rightarrow> error + int" where
  "bs_getitem b key =
     (let byte_index = key div 8
      in case py_index (length (bs_bytes b)) byte_index of
           Inl e \<Rightarrow> Inl e
         | Inr j \<Rightarrow>
             (let byte = bs_bytes b ! j;
                  shift = nat (key mod 8);
                  bit_index = push_bit shift (1 :: byte)
              in Inr (uint (drop_bit shift (byte AND bit_index)))))"

text \<open>
  \<^verbatim>\<open>
    def __setitem__(self, key, value):
        assert value == 0 or value == 1, '{} is not a bit'.format(value)
        byte_index = key // 8
        byte = self._bs[byte_index]
        shift = key % 8
        bit_index = 1 << shift
        self._bs[byte_index] |= bit_index
  \<close>
\<close>

definition bs_setitem :: "bitstring \<Rightarrow> int \<Rightarrow> int \<Rightarrow> error + bitstring" where
  "bs_setitem b key v =
     (if \<not> (v = 0 \<or> v = 1) then Inl AssertionError
      else let byte_index = key div 8
           in case py_index (length (bs_bytes b)) byte_index of
                Inl e \<Rightarrow> Inl e
              | Inr j \<Rightarrow>
                  (let shift = nat (key mod 8);
                       bit_index = push_bit shift (1 :: byte)
                   in Inr (b\<lparr>bs_bytes := (bs_bytes b)[j := (bs_bytes b ! j) OR bit_index]\<rparr>)))"

text \<open>
  \<^verbatim>\<open>
    def __or__(self, other):
        assert self.l == other.l
        bs = BloomFilter.BitString(self.l)
        for i in range(self.l // 8):
            bs._bs[i] = self._bs[i] | other._bs[i]
        return bs
  \<close>
  and \<^verbatim>\<open>__and__\<close>, the same with \<^verbatim>\<open>&\<close>. The loop runs over \<^verbatim>\<open>range(self.l // 8)\<close>; an index
  past the end of one of the three arrays raises \<^verbatim>\<open>IndexError\<close>.
\<close>

fun bs_combine_loop ::
  "(byte \<Rightarrow> byte \<Rightarrow> byte) \<Rightarrow> bytes \<Rightarrow> bytes \<Rightarrow> nat list \<Rightarrow> bytes \<Rightarrow> error + bytes" where
  "bs_combine_loop f xs ys [] acc = Inr acc"
| "bs_combine_loop f xs ys (i # is) acc =
     (if i < length xs \<and> i < length ys \<and> i < length acc
      then bs_combine_loop f xs ys is (acc[i := f (xs ! i) (ys ! i)])
      else Inl IndexError)"

definition bs_combine ::
  "(byte \<Rightarrow> byte \<Rightarrow> byte) \<Rightarrow> bitstring \<Rightarrow> bitstring \<Rightarrow> error + bitstring" where
  "bs_combine f a b =
     (if bs_l a \<noteq> bs_l b then Inl AssertionError
      else case BitString_init (bs_l a) of
             Inl e \<Rightarrow> Inl e
           | Inr bs \<Rightarrow>
               (case bs_combine_loop f (bs_bytes a) (bs_bytes b) [0..<nat (bs_l a div 8)]
                       (bs_bytes bs) of
                  Inl e \<Rightarrow> Inl e
                | Inr bytes' \<Rightarrow> Inr (bs\<lparr>bs_bytes := bytes'\<rparr>)))"

definition bs_or :: "bitstring \<Rightarrow> bitstring \<Rightarrow> error + bitstring" where
  "bs_or = bs_combine (OR)"

definition bs_and :: "bitstring \<Rightarrow> bitstring \<Rightarrow> error + bitstring" where
  "bs_and = bs_combine (AND)"

text \<open>
  \<^verbatim>\<open>weight\<close> sums \<^verbatim>\<open>bit_weights[byte]\<close> over the bytes; the table \<^verbatim>\<open>bit_weights\<close> of the
  source lists, for each of the 256 byte values, the number of its bits that are set.
\<close>

definition bit_weights :: "nat list" where
  "bit_weights =
    [0, 1, 1, 2, 1, 2, 2, 3, 1, 2, 2, 3, 2, 3, 3, 4, 1, 2, 2, 3, 2, 3, 3, 4, 2, 3, 3, 4, 3, 4, 4, 5,
     1, 2, 2, 3, 2, 3, 3, 4, 2, 3, 3, 4, 3, 4, 4, 5, 2, 3, 3, 4, 3, 4, 4, 5, 3, 4, 4, 5, 4, 5, 5, 6,
     1, 2, 2, 3, 2, 3, 3, 4, 2, 3, 3, 4, 3, 4, 4, 5, 2, 3, 3, 4, 3, 4, 4, 5, 3, 4, 4, 5, 4, 5, 5, 6,
     2, 3, 3, 4, 3, 4, 4, 5, 3, 4, 4, 5, 4, 5, 5, 6, 3, 4, 4, 5, 4, 5, 5, 6, 4, 5, 5, 6, 5, 6, 6, 7,
     1, 2, 2, 3, 2, 3, 3, 4, 2, 3, 3, 4, 3, 4, 4, 5, 2, 3, 3, 4, 3, 4, 4, 5, 3, 4, 4, 5, 4, 5, 5, 6,
     2, 3, 3, 4, 3, 4, 4, 5, 3, 4, 4, 5, 4, 5, 5, 6, 3, 4, 4, 5, 4, 5, 5, 6, 4, 5, 5, 6, 5, 6, 6, 7,
     2, 3, 3, 4, 3, 4, 4, 5, 3, 4, 4, 5, 4, 5, 5, 6, 3, 4, 4, 5, 4, 5, 5, 6, 4, 5, 5, 6, 5, 6, 6, 7,
     3, 4, 4, 5, 4, 5, 5, 6, 4, 5, 5, 6, 5, 6, 6, 7, 4, 5, 5, 6, 5, 6, 6, 7, 5, 6, 6, 7, 6, 7, 7, 8]"

definition bs_weight :: "bitstring \<Rightarrow> nat" where
  "bs_weight b = sum_list (map (\<lambda>byte. bit_weights ! unat byte) (bs_bytes b))"

text \<open>
  \<^verbatim>\<open>mmh3.hash\<close> (a signed 32-bit value) and \<^verbatim>\<open>mmh3.hash128\<close> are parameters.
\<close>

record mmh3 =
  mmh3_hash :: "bytes \<Rightarrow> int"
  mmh3_hash128 :: "bytes \<Rightarrow> int"

text \<open>
  A Bloom filter: \<^verbatim>\<open>m\<close>, \<^verbatim>\<open>k\<close>, the bit string \<^verbatim>\<open>bs\<close> and the list \<^verbatim>\<open>_h\<close> of hash functions.
  \<^verbatim>\<open>
    def __init__(self, m, k):
        self.m = m
        self.k = k
        if m.bit_length() > 32:
            H = mmh3.hash128
        else:
            H = mmh3.hash
        self.bs = self.BitString(m)
        self._h = [(lambda x: (lambda y: H(x + y) % m))(i.to_bytes(k.bit_length(), 'big'))
                for i in range(k)]
  \<close>
  The \<open>i\<close>-th hash function is \<open>y \<mapsto> H(prefix\<^sub>i + y) % m\<close>, which raises
  \<^verbatim>\<open>ZeroDivisionError\<close> when \<open>m = 0\<close>. The prefix \<^verbatim>\<open>i.to_bytes(k.bit_length(), 'big')\<close> is
  computed when the filter is built, and never overflows, since \<open>0 \<le> i < k\<close> (lemma
  \<open>to_bytes_prefix\<close> below).
\<close>

record bloom =
  bf_m :: int
  bf_k :: int
  bf_bs :: bitstring
  bf_h :: "(bytes \<Rightarrow> error + int) list"

definition bloom_hash :: "(bytes \<Rightarrow> int) \<Rightarrow> int \<Rightarrow> bytes \<Rightarrow> bytes \<Rightarrow> error + int" where
  "bloom_hash H m x y = (if m = 0 then Inl ZeroDivisionError else Inr (H (x @ y) mod m))"

definition BloomFilter_init :: "mmh3 \<Rightarrow> int \<Rightarrow> int \<Rightarrow> error + bloom" where
  "BloomFilter_init M m k =
     (let H = (if bit_length m > 32 then mmh3_hash128 M else mmh3_hash M)
      in case BitString_init m of
           Inl e \<Rightarrow> Inl e
         | Inr bs \<Rightarrow>
             Inr \<lparr>bf_m = m, bf_k = k, bf_bs = bs,
                  bf_h = map (\<lambda>i. bloom_hash H m (be_bytes (bit_length k) (int i)))
                           [0..<nat k]\<rparr>)"

text \<open>
  \<^verbatim>\<open>__contains__\<close>: \<^verbatim>\<open>all(self.bs[h(item)] for h in self._h)\<close>, which stops at the first bit
  that is 0.
\<close>

fun contains_loop :: "bitstring \<Rightarrow> (bytes \<Rightarrow> error + int) list \<Rightarrow> bytes \<Rightarrow> error + bool" where
  "contains_loop b [] item = Inr True"
| "contains_loop b (h # hs) item =
     (case h item of
        Inl e \<Rightarrow> Inl e
      | Inr pos \<Rightarrow>
          (case bs_getitem b pos of
             Inl e \<Rightarrow> Inl e
           | Inr v \<Rightarrow> if v = 0 then Inr False else contains_loop b hs item))"

definition bf_contains :: "bloom \<Rightarrow> bytes \<Rightarrow> error + bool" where
  "bf_contains bf item = contains_loop (bf_bs bf) (bf_h bf) item"

text \<open>
  \<^verbatim>\<open>
    def add(self, elem):
        for h in self._h:
            self.bs[h(elem)] = 1
  \<close>
\<close>

fun add_loop :: "bitstring \<Rightarrow> (bytes \<Rightarrow> error + int) list \<Rightarrow> bytes \<Rightarrow> error + bitstring" where
  "add_loop b [] elem = Inr b"
| "add_loop b (h # hs) elem =
     (case h elem of
        Inl e \<Rightarrow> Inl e
      | Inr pos \<Rightarrow>
          (case bs_setitem b pos 1 of
             Inl e \<Rightarrow> Inl e
           | Inr b' \<Rightarrow> add_loop b' hs elem))"

definition bf_add :: "bloom \<Rightarrow> bytes \<Rightarrow> error + bloom" where
  "bf_add bf elem =
     (case add_loop (bf_bs bf) (bf_h bf) elem of
        Inl e \<Rightarrow> Inl e
      | Inr b \<Rightarrow> Inr (bf\<lparr>bf_bs := b\<rparr>))"

text \<open>
  \<^verbatim>\<open>
    def empty(self):
        bf = BloomFilter(self.m, self.k)
        bf._h = self._h
        return bf

    def union(self, other):
        bf = self.empty()
        bf.bs = self.bs | other.bs
        return bf
  \<close>
  and \<^verbatim>\<open>intersection\<close>, the same with \<^verbatim>\<open>&\<close>; \<^verbatim>\<open>weight\<close> is the weight of the bit string.
\<close>

definition bf_empty :: "mmh3 \<Rightarrow> bloom \<Rightarrow> error + bloom" where
  "bf_empty M self =
     (case BloomFilter_init M (bf_m self) (bf_k self) of
        Inl e \<Rightarrow> Inl e
      | Inr bf \<Rightarrow> Inr (bf\<lparr>bf_h := bf_h self\<rparr>))"

definition bf_union :: "mmh3 \<Rightarrow> bloom \<Rightarrow> bloom \<Rightarrow> error + bloom" where
  "bf_union M self other =
     (case bf_empty M self of
        Inl e \<Rightarrow> Inl e
      | Inr bf \<Rightarrow>
          (case bs_or (bf_bs self) (bf_bs other) of
             Inl e \<Rightarrow> Inl e
           | Inr b \<Rightarrow> Inr (bf\<lparr>bf_bs := b\<rparr>)))"

definition bf_intersection :: "mmh3 \<Rightarrow> bloom \<Rightarrow> bloom \<Rightarrow> error + bloom" where
  "bf_intersection M self other =
     (case bf_empty M self of
        Inl e \<Rightarrow> Inl e
      | Inr bf \<Rightarrow>
          (case bs_and (bf_bs self) (bf_bs other) of
             Inl e \<Rightarrow> Inl e
           | Inr b \<Rightarrow> Inr (bf\<lparr>bf_bs := b\<rparr>)))"

definition bf_weight :: "bloom \<Rightarrow> nat" where
  "bf_weight bf = bs_weight (bf_bs bf)"

section \<open>Two-client schemes\<close>

text \<open>
  A Python \<^verbatim>\<open>set\<close> is the list of its elements in the order in which it is iterated, and
  a \<^verbatim>\<open>dict\<close> is the list of its items: an assignment \<^verbatim>\<open>d[k] = v\<close> replaces the value of
  a key that is present and appends the item otherwise (\<open>AList.update\<close>), and \<^verbatim>\<open>d[k]\<close>
  raises \<^verbatim>\<open>KeyError\<close> for a key that is absent.
\<close>

definition set_add :: "'a \<Rightarrow> 'a list \<Rightarrow> 'a list" where
  "set_add x xs = (if x \<in> set xs then xs else xs @ [x])"

definition dict_get :: "('k \<times> 'v) list \<Rightarrow> 'k \<Rightarrow> error + 'v" where
  "dict_get d k = (case map_of d k of None \<Rightarrow> Inl KeyError | Some v \<Rightarrow> Inr v)"

text \<open>\<^verbatim>\<open>d0.keys() & d1.keys()\<close>.\<close>

definition common_keys :: "('k \<times> 'v) list \<Rightarrow> ('k \<times> 'w) list \<Rightarrow> 'k list" where
  "common_keys d0 d1 = filter (\<lambda>k. k \<in> fst ` set d1) (map fst d0)"

text \<open>
  What the schemes take from \<^verbatim>\<open>cryptography\<close> and \<^verbatim>\<open>hashlib\<close>: AES-CBC, SHA-256 and
  AES-GCM. The hash value of SHA-256 is a word of 256 bits, and
  \<^verbatim>\<open>hashlib.sha256(x).digest()\<close> is the 32 bytes of that word.
\<close>

record crypto =
  aes_cbc :: "bytes \<Rightarrow> bytes \<Rightarrow> cipher"
  sha256 :: "bytes \<Rightarrow> 256 word"
  gcm_encrypt :: "bytes \<Rightarrow> bytes \<Rightarrow> bytes \<Rightarrow> bytes"
  gcm_decrypt :: "bytes \<Rightarrow> bytes \<Rightarrow> bytes \<Rightarrow> bytes option"

definition sha256_digest :: "crypto \<Rightarrow> bytes \<Rightarrow> bytes" where
  "sha256_digest C x = be_bytes 32 (uint (sha256 C x))"

text \<open>
  \<^verbatim>\<open>AESGCM(key).decrypt(nonce, ct, None)\<close>. The library first checks the length of the
  nonce and raises \<^verbatim>\<open>ValueError\<close> unless it is between 8 and 128 bytes (the empty nonce
  is refused by every version of the library); only then does it verify the tag, and
  raises \<^verbatim>\<open>InvalidTag\<close> when the tag does not verify, which is the case in particular
  for a ciphertext that is shorter than the 16 bytes of a tag. The field \<open>gcm_decrypt\<close>
  is the decryption proper, with \<open>None\<close> for a tag that does not verify. (The
  constructor \<^verbatim>\<open>AESGCM(key)\<close> refuses a key that is not 16, 24 or 32 bytes long; every
  key that the schemes construct is the 16 bytes \<^verbatim>\<open>h[:16]\<close> of a digest. In the same way
  \<^verbatim>\<open>encrypt\<close> refuses a nonce of a wrong length; every nonce that the schemes encrypt
  with is 12 bytes long.)
\<close>

definition ae_decrypt :: "crypto \<Rightarrow> bytes \<Rightarrow> bytes \<Rightarrow> bytes \<Rightarrow> error + bytes" where
  "ae_decrypt C key nonce ct =
     (if length nonce < 8 \<or> 128 < length nonce then Inl ValueError
      else case gcm_decrypt C key nonce ct of None \<Rightarrow> Inl InvalidTag | Some pt \<Rightarrow> Inr pt)"

subsection \<open>Cardinality\<close>

text \<open>
  \<^verbatim>\<open>
    def setup(self, secpar):
        key = os.urandom(secpar // 8)
        return (key, key)

    def encrypt(self, usk, gid, pt_set):
        iv = gid
        cipher = Cipher(algorithms.AES(usk), modes.CBC(iv), backend=default_backend())
        ct_set = {self._prf(cipher, pt) for pt in pt_set}
        return ct_set

    def eval(self, ct_sets):
        return len(ct_sets[0] & ct_sets[1])
  \<close>
\<close>

definition tc_setup :: "(nat \<Rightarrow> byte) \<Rightarrow> int \<Rightarrow> error + (bytes \<times> bytes)" where
  "tc_setup ent secpar =
     (case os_urandom ent (secpar div 8) of Inl e \<Rightarrow> Inl e | Inr key \<Rightarrow> Inr (key, key))"

definition tc_encrypt :: "crypto \<Rightarrow> bytes \<Rightarrow> bytes \<Rightarrow> bytes list \<Rightarrow> error + bytes list" where
  "tc_encrypt C usk gid pt_set =
     (case new_cipher (aes_cbc C) usk gid of
        Inl e \<Rightarrow> Inl e
      | Inr cipher \<Rightarrow> Inr (remdups (map (prf_aes cipher) pt_set)))"

definition tc_eval :: "bytes list list \<Rightarrow> error + nat" where
  "tc_eval ct_sets =
     (case ct_sets of
        c0 # c1 # _ \<Rightarrow> Inr (card (set c0 \<inter> set c1))
      | _ \<Rightarrow> Inl IndexError)"

subsection \<open>Intersection\<close>

text \<open>
  The attributes of a scheme object of \<^verbatim>\<open>twoclient.py\<close>: \<^verbatim>\<open>g\<close> is drawn by \<^verbatim>\<open>__init__\<close>;
  \<^verbatim>\<open>threshold\<close> and \<^verbatim>\<open>ff_order\<close> exist once \<^verbatim>\<open>Threshold.setup\<close> has run.
\<close>

record 'g tscheme =
  t_gen :: 'g
  t_secpar :: "int option"
  t_threshold :: "int option"
  t_ff_order :: "int option"

text \<open>
  \<^verbatim>\<open>
    def setup(self, secpar):
        self.secpar = secpar
        sigma = self.group.random(ZR)
        msk = os.urandom(secpar // 8)
        return ((msk, sigma), (msk, 1-sigma))
  \<close>
\<close>

definition int_setup ::
  "'g ecgroup \<Rightarrow> (nat \<Rightarrow> byte) \<Rightarrow> (nat \<Rightarrow> int) \<Rightarrow> 'g tscheme \<Rightarrow> int
     \<Rightarrow> 'g tscheme \<times> (error + ((bytes \<times> int) \<times> (bytes \<times> int)))" where
  "int_setup G ent rnd self secpar =
     (let self' = self\<lparr>t_secpar := Some secpar\<rparr>;
          q = g_order G;
          sigma = zr q (rnd 0)
      in case os_urandom ent (secpar div 8) of
           Inl e \<Rightarrow> (self', Inl e)
         | Inr msk \<Rightarrow> (self', Inr ((msk, sigma), (msk, zr q (1 - sigma)))))"

text \<open>
  \<^verbatim>\<open>
    def _phi(self, cipher, pt):
        padding_len = 16 - (len(pt) % 16)
        pt = pt + b'\0' * padding_len
        encryptor = cipher.encryptor()
        ct = encryptor.update(pt) + encryptor.finalize()
        exponent = int.from_bytes(ct, 'big') % self.group.order()
        return self.g ** exponent

    def _H(self, g):
        prefix = b'\x00'
        hashable = prefix + self.group.serialize(g)
        h = hashlib.sha256(hashable).digest()
        return h[:16]

    def _H_bytes(self, g):
        prefix = b'\x01'
        hashable = prefix + self.group.serialize(g)
        h = hashlib.sha256(hashable).digest()
        return h
  \<close>
  \<^verbatim>\<open>_H\<close> is applied to points and, in the threshold scheme, to scalars; the two differ
  in the serialisation.
\<close>

definition phi :: "'g ecgroup \<Rightarrow> 'g \<Rightarrow> cipher \<Rightarrow> bytes \<Rightarrow> 'g" where
  "phi G g cipher pt =
     (let ct = cipher (zero_pad pt);
          exponent = int_from_bytes ct mod g_order G
      in g_pow G g exponent)"

definition H_key :: "crypto \<Rightarrow> bytes \<Rightarrow> bytes" where
  "H_key C ser = take 16 (sha256_digest C (0 # ser))"

definition H_bytes :: "crypto \<Rightarrow> bytes \<Rightarrow> bytes" where
  "H_bytes C ser = sha256_digest C (1 # ser)"

text \<open>
  \<^verbatim>\<open>
    def encrypt(self, usk, gid, pt_set):
        msk, sigma = usk
        iv = gid
        cipher = Cipher(algorithms.AES(msk), modes.CBC(iv), backend=default_backend())
        ct_dict = {}
        for pt in pt_set:
            k = self._phi(cipher, pt)
            ct1 = self.group.serialize(k**sigma)
            ae_key = self._H(k)
            ae_nonce = self._H_bytes(k)[:12]
            ae = AESGCM(ae_key)
            ct2 = (ae_nonce, ae.encrypt(ae_nonce, pt, None))
            ct_dict[ae_key] = (ct1, ct2)
        return ct_dict
  \<close>
\<close>

type_synonym int_ct = "bytes \<times> (bytes \<times> bytes)"

definition int_item :: "'g ecgroup \<Rightarrow> crypto \<Rightarrow> 'g \<Rightarrow> cipher \<Rightarrow> int \<Rightarrow> bytes \<Rightarrow> bytes \<times> int_ct" where
  "int_item G C g cipher sigma pt =
     (let k = phi G g cipher pt;
          ct1 = g_serialize G (g_pow G k sigma);
          ae_key = H_key C (g_serialize G k);
          ae_nonce = take 12 (H_bytes C (g_serialize G k));
          ct2 = (ae_nonce, gcm_encrypt C ae_key ae_nonce pt)
      in (ae_key, (ct1, ct2)))"

definition int_encrypt ::
  "'g ecgroup \<Rightarrow> crypto \<Rightarrow> 'g tscheme \<Rightarrow> bytes \<times> int \<Rightarrow> bytes \<Rightarrow> bytes list
     \<Rightarrow> error + (bytes \<times> int_ct) list" where
  "int_encrypt G C self usk gid pt_set =
     (case usk of (msk, sigma) \<Rightarrow>
        (case new_cipher (aes_cbc C) msk gid of
           Inl e \<Rightarrow> Inl e
         | Inr cipher \<Rightarrow>
             Inr (foldl (\<lambda>ct_dict pt.
                          case int_item G C (t_gen self) cipher sigma pt of
                            (ae_key, v) \<Rightarrow> AList.update ae_key v ct_dict)
                    [] pt_set)))"

text \<open>
  \<^verbatim>\<open>
    def eval(self, ct_sets):
        pt_intersection = set()
        ct_intersection = ct_sets[0].keys() & ct_sets[1].keys()
        for k in ct_intersection:
            g1 = self.group.deserialize(ct_sets[0][k][0])
            g2 = self.group.deserialize(ct_sets[1][k][0])
            key = g1 * g2
            ae_nonce, ct = ct_sets[0][k][1]
            ae_key = self._H(key)
            ae = AESGCM(ae_key)
            pt = ae.decrypt(ae_nonce, ct, None)
            pt_intersection.add(pt)
        return pt_intersection
  \<close>
\<close>

fun int_eval_loop ::
  "'g ecgroup \<Rightarrow> crypto \<Rightarrow> (bytes \<times> int_ct) list \<Rightarrow> (bytes \<times> int_ct) list \<Rightarrow> bytes list
     \<Rightarrow> bytes list \<Rightarrow> error + bytes list" where
  "int_eval_loop G C d0 d1 [] pt_intersection = Inr pt_intersection"
| "int_eval_loop G C d0 d1 (k # ks) pt_intersection =
     (case dict_get d0 k of
        Inl e \<Rightarrow> Inl e
      | Inr (c0, (ae_nonce, ct)) \<Rightarrow>
          (case dict_get d1 k of
             Inl e \<Rightarrow> Inl e
           | Inr (c1, _) \<Rightarrow>
               (let g1 = g_deserialize G c0;
                    g2 = g_deserialize G c1;
                    key = g_mul G g1 g2;
                    ae_key = H_key C (g_serialize G key)
                in case ae_decrypt C ae_key ae_nonce ct of
                     Inl e \<Rightarrow> Inl e
                   | Inr pt \<Rightarrow> int_eval_loop G C d0 d1 ks (set_add pt pt_intersection))))"

definition int_eval ::
  "'g ecgroup \<Rightarrow> crypto \<Rightarrow> (bytes \<times> int_ct) list list \<Rightarrow> error + bytes list" where
  "int_eval G C ct_sets =
     (case ct_sets of
        d0 # d1 # _ \<Rightarrow> int_eval_loop G C d0 d1 (common_keys d0 d1) []
      | _ \<Rightarrow> Inl IndexError)"

subsection \<open>Threshold\<close>

text \<open>
  Scalar arithmetic of the threshold scheme: the power of a scalar by an integer, and
  the inverse \<^verbatim>\<open>x ** (-1)\<close>, which for the prime order \<open>q\<close> is \<open>x\<^sup>q\<^sup>-\<^sup>2\<close>.
\<close>

definition zr_inv :: "int \<Rightarrow> int \<Rightarrow> int" where
  "zr_inv q x = x ^ nat (q - 2) mod q"

definition zr_pow :: "int \<Rightarrow> int \<Rightarrow> int \<Rightarrow> int" where
  "zr_pow q x e = (if 0 \<le> e then x ^ nat e mod q else zr_inv q x ^ nat (- e) mod q)"

text \<open>The \<open>n\<close> bytes that \<^verbatim>\<open>os.urandom(n)\<close> returns at position \<open>off\<close> of the entropy stream.\<close>

definition urandom_at :: "(nat \<Rightarrow> byte) \<Rightarrow> nat \<Rightarrow> nat \<Rightarrow> bytes" where
  "urandom_at ent off n = map (\<lambda>i. ent (off + i)) [0..<n]"

text \<open>
  \<^verbatim>\<open>
    def setup(self, secpar, threshold):
        self.secpar = secpar
        self.threshold = threshold
        self.ff_order = int(self.group.order()) - 1
        sigma = self.group.random(ZR)
        rho1 = int(self.group.random(ZR))
        rho2 = (1 - rho1) % self.ff_order
        sk1, sk2, sk3 = [os.urandom(secpar // 8) for _ in range(3)]
        return ((sk1, sk2, sk3, sigma, rho1), (sk1, sk2, sk3, 1-sigma, rho2))
  \<close>
\<close>

type_synonym th_usk = "bytes \<times> bytes \<times> bytes \<times> int \<times> int"

definition th_setup ::
  "'g ecgroup \<Rightarrow> (nat \<Rightarrow> byte) \<Rightarrow> (nat \<Rightarrow> int) \<Rightarrow> 'g tscheme \<Rightarrow> int \<Rightarrow> int
     \<Rightarrow> 'g tscheme \<times> (error + (th_usk \<times> th_usk))" where
  "th_setup G ent rnd self secpar threshold =
     (let q = g_order G;
          ff_order = q - 1;
          self' = self\<lparr>t_secpar := Some secpar, t_threshold := Some threshold,
                       t_ff_order := Some ff_order\<rparr>;
          sigma = zr q (rnd 0);
          rho1 = zr q (rnd 1)
      in if ff_order = 0 then (self', Inl ZeroDivisionError)
         else let rho2 = (1 - rho1) mod ff_order
              in if secpar div 8 < 0 then (self', Inl ValueError)
                 else let n = nat (secpar div 8);
                          sk1 = urandom_at ent 0 n;
                          sk2 = urandom_at ent n n;
                          sk3 = urandom_at ent (2 * n) n
                      in (self', Inr ((sk1, sk2, sk3, sigma, rho1),
                                      (sk1, sk2, sk3, zr q (1 - sigma), rho2))))"

text \<open>
  \<^verbatim>\<open>
    def _psi(self, cipher, pt):
        padding_len = 16 - (len(pt) % 16)
        pt = pt + b'\0' * padding_len
        encryptor = cipher.encryptor()
        ct = encryptor.update(pt) + encryptor.finalize()
        return self.group.init(ZR, int.from_bytes(ct, 'big'))
  \<close>
\<close>

definition psi :: "'g ecgroup \<Rightarrow> cipher \<Rightarrow> bytes \<Rightarrow> int" where
  "psi G cipher pt = zr (g_order G) (int_from_bytes (cipher (zero_pad pt)))"

text \<open>
  \<^verbatim>\<open>
    def encrypt(self, usk, gid, pt_set):
        sk1, sk2, sk3, sigma, rho = usk
        iv = gid
        phi = Cipher(algorithms.AES(sk1), modes.CBC(iv), backend=default_backend())
        psi1 = Cipher(algorithms.AES(sk2), modes.CBC(iv), backend=default_backend())
        psi2 = Cipher(algorithms.AES(sk3), modes.CBC(iv), backend=default_backend())
        cs = [self._psi(psi2, i.to_bytes(16, 'big')) for i in range(self.threshold)]
        def f(x):
            return sum([c * x**i for i, c in enumerate(cs)])
        ae1_key = self._H(cs[0])
        ae1_nonce = os.urandom(12)
        ae1 = AESGCM(ae1_key)
        ct_dict = {}
        for pt in pt_set:
            k1 = self._phi(phi, pt)
            k2 = self._psi(psi1, pt)
            ct1 = self.group.serialize(k2)
            ct2 = self.group.serialize(f(k2) ** rho)
            k1_sigma = self.group.serialize(k1 ** sigma)
            ct3 = (ae1_nonce, ae1.encrypt(ae1_nonce, k1_sigma, None))
            ae2_key = self._H(k1)
            ae2_nonce = os.urandom(12)
            ae2 = AESGCM(ae2_key)
            ct4 = (ae2_nonce, ae2.encrypt(ae2_nonce, pt, None))
            ct_dict[ct1] = (ct2, ct3, ct4)
        return ct_dict
  \<close>
  The nonce \<^verbatim>\<open>ae1_nonce\<close> is the first 12 bytes of the entropy stream, and the \<open>j\<close>-th
  element of the set takes the 12 bytes after those of its predecessors. \<^verbatim>\<open>cs[0]\<close> raises
  \<^verbatim>\<open>IndexError\<close> when the threshold is not positive. (\<^verbatim>\<open>i.to_bytes(16, 'big')\<close> cannot
  overflow for a threshold below \<open>2\<^sup>1\<^sup>2\<^sup>8\<close>.)
\<close>

type_synonym th_ct = "bytes \<times> (bytes \<times> bytes) \<times> (bytes \<times> bytes)"

definition th_item ::
  "'g ecgroup \<Rightarrow> crypto \<Rightarrow> 'g \<Rightarrow> cipher \<Rightarrow> cipher \<Rightarrow> int list \<Rightarrow> bytes \<Rightarrow> bytes \<Rightarrow> int \<Rightarrow> int
     \<Rightarrow> bytes \<Rightarrow> bytes \<Rightarrow> bytes \<times> th_ct" where
  "th_item G C g phi_c psi1 cs ae1_key ae1_nonce sigma rho ae2_nonce pt =
     (let q = g_order G;
          k1 = phi G g phi_c pt;
          k2 = psi G psi1 pt;
          ct1 = zr_serialize G k2;
          ct2 = zr_serialize G (zr_pow q (shamir_poly q cs k2) rho);
          k1_sigma = g_serialize G (g_pow G k1 sigma);
          ct3 = (ae1_nonce, gcm_encrypt C ae1_key ae1_nonce k1_sigma);
          ae2_key = H_key C (g_serialize G k1);
          ct4 = (ae2_nonce, gcm_encrypt C ae2_key ae2_nonce pt)
      in (ct1, (ct2, ct3, ct4)))"

fun th_encrypt_loop ::
  "(nat \<Rightarrow> bytes \<Rightarrow> bytes \<times> th_ct) \<Rightarrow> bytes list \<Rightarrow> nat \<Rightarrow> (bytes \<times> th_ct) list
     \<Rightarrow> (bytes \<times> th_ct) list" where
  "th_encrypt_loop item [] j ct_dict = ct_dict"
| "th_encrypt_loop item (pt # pts) j ct_dict =
     (case item j pt of (ct1, v) \<Rightarrow> th_encrypt_loop item pts (Suc j) (AList.update ct1 v ct_dict))"

definition th_encrypt ::
  "'g ecgroup \<Rightarrow> crypto \<Rightarrow> (nat \<Rightarrow> byte) \<Rightarrow> 'g tscheme \<Rightarrow> th_usk \<Rightarrow> bytes \<Rightarrow> bytes list
     \<Rightarrow> error + (bytes \<times> th_ct) list" where
  "th_encrypt G C ent self usk gid pt_set =
     (case usk of (sk1, sk2, sk3, sigma, rho) \<Rightarrow>
        (case new_cipher (aes_cbc C) sk1 gid of
           Inl e \<Rightarrow> Inl e
         | Inr phi_c \<Rightarrow>
        (case new_cipher (aes_cbc C) sk2 gid of
           Inl e \<Rightarrow> Inl e
         | Inr psi1 \<Rightarrow>
        (case new_cipher (aes_cbc C) sk3 gid of
           Inl e \<Rightarrow> Inl e
         | Inr psi2 \<Rightarrow>
        (case t_threshold self of
           None \<Rightarrow> Inl AttributeError
         | Some t \<Rightarrow>
             (let cs = map (\<lambda>i. psi G psi2 (be_bytes 16 (int i))) [0..<nat t]
              in if cs = [] then Inl IndexError
                 else let ae1_key = H_key C (zr_serialize G (hd cs));
                          ae1_nonce = urandom_at ent 0 12
                      in Inr (th_encrypt_loop
                                (\<lambda>j. th_item G C (t_gen self) phi_c psi1 cs ae1_key ae1_nonce
                                       sigma rho (urandom_at ent (12 * Suc j) 12))
                                pt_set 0 [])))))))"

text \<open>
  \<^verbatim>\<open>
    def delta(S, i):
        prod = 1
        for j in S:
            if i == j:
                continue
            prod *= j * (j - i)**(-1)
        return prod
  \<close>
\<close>

definition delta :: "int \<Rightarrow> int list \<Rightarrow> int \<Rightarrow> int" where
  "delta q S i =
     foldl (\<lambda>prod j. if i = j then prod else zr q (prod * zr q (j * zr_pow q (zr q (j - i)) (- 1))))
       1 S"

text \<open>
  \<^verbatim>\<open>
    def eval(self, ct_sets):
        cardinality = 0
        ct_intersection = ct_sets[0].keys() & ct_sets[1].keys()
        pt_intersection = set()
        cardinality = len(ct_intersection)
        if cardinality >= self.threshold:
            xs, ys = [], []
            for k in islice(ct_intersection, self.threshold):
                xs.append(self.group.deserialize(k))
                ys.append(self.group.deserialize(ct_sets[0][k][0])
                          * self.group.deserialize(ct_sets[1][k][0]))
            c0 = sum([y * delta(xs, x) for x, y in zip(xs, ys)])
            ae1_key = self._H(c0)
            ae1 = AESGCM(ae1_key)
            for k in ct_intersection:
                _, (ct1_k1_nonce, ct1_k1_sigma), (ct1_ae_nonce, ct1_ae_ct) = ct_sets[0][k]
                _, (ct2_k1_nonce, ct2_k1_sigma), _ = ct_sets[1][k]
                pt1_k1_sigma = ae1.decrypt(ct1_k1_nonce, ct1_k1_sigma, None)
                pt2_k1_sigma = ae1.decrypt(ct2_k1_nonce, ct2_k1_sigma, None)
                k1 = self.group.deserialize(pt1_k1_sigma) * self.group.deserialize(pt2_k1_sigma)
                ae2_key = self._H(k1)
                ae2 = AESGCM(ae2_key)
                pt = ae2.decrypt(ct1_ae_nonce, ct1_ae_ct, None)
                pt_intersection.add(pt)
        return cardinality, pt_intersection
  \<close>
  The key intersection \<^verbatim>\<open>ct_intersection\<close> is a Python set of byte strings. The order
  in which Python iterates it follows the hashes of the keys, which are salted anew for
  every process, and not the order of the dictionaries; the set is iterated twice, by
  \<^verbatim>\<open>islice\<close> and by the second loop, in the same order both times. That order is the
  parameter \<open>order\<close> of \<open>th_eval\<close>: the function that arranges the list of the common
  keys in the sequence of the iteration. \<^verbatim>\<open>islice\<close> raises \<^verbatim>\<open>ValueError\<close> for a negative
  threshold; for the threshold 0 the sum \<^verbatim>\<open>c0\<close> is the integer 0, which \<^verbatim>\<open>serialize\<close>
  does not accept (\<^verbatim>\<open>TypeError\<close>).
\<close>

fun th_points ::
  "'g ecgroup \<Rightarrow> (bytes \<times> th_ct) list \<Rightarrow> (bytes \<times> th_ct) list \<Rightarrow> bytes list
     \<Rightarrow> error + (int \<times> int) list" where
  "th_points G d0 d1 [] = Inr []"
| "th_points G d0 d1 (k # ks) =
     (case dict_get d0 k of
        Inl e \<Rightarrow> Inl e
      | Inr (a, _) \<Rightarrow>
          (case dict_get d1 k of
             Inl e \<Rightarrow> Inl e
           | Inr (b, _) \<Rightarrow>
               (case th_points G d0 d1 ks of
                  Inl e \<Rightarrow> Inl e
                | Inr ps \<Rightarrow>
                    Inr ((zr (g_order G) (zr_deserialize G k),
                          zr (g_order G) (zr_deserialize G a * zr_deserialize G b)) # ps))))"

text \<open>One pass through the body of the second loop, for the key \<open>k\<close>.\<close>

definition th_recover ::
  "'g ecgroup \<Rightarrow> crypto \<Rightarrow> (bytes \<times> th_ct) list \<Rightarrow> (bytes \<times> th_ct) list \<Rightarrow> bytes
     \<Rightarrow> bytes \<Rightarrow> error + bytes" where
  "th_recover G C d0 d1 ae1_key k =
     (case dict_get d0 k of
        Inl e \<Rightarrow> Inl e
      | Inr (_, (ct1_k1_nonce, ct1_k1_sigma), (ct1_ae_nonce, ct1_ae_ct)) \<Rightarrow>
     (case dict_get d1 k of
        Inl e \<Rightarrow> Inl e
      | Inr (_, (ct2_k1_nonce, ct2_k1_sigma), _) \<Rightarrow>
     (case ae_decrypt C ae1_key ct1_k1_nonce ct1_k1_sigma of
        Inl e \<Rightarrow> Inl e
      | Inr pt1_k1_sigma \<Rightarrow>
     (case ae_decrypt C ae1_key ct2_k1_nonce ct2_k1_sigma of
        Inl e \<Rightarrow> Inl e
      | Inr pt2_k1_sigma \<Rightarrow>
          (let k1 = g_mul G (g_deserialize G pt1_k1_sigma) (g_deserialize G pt2_k1_sigma);
               ae2_key = H_key C (g_serialize G k1)
           in ae_decrypt C ae2_key ct1_ae_nonce ct1_ae_ct)))))"

fun th_eval_loop ::
  "'g ecgroup \<Rightarrow> crypto \<Rightarrow> (bytes \<times> th_ct) list \<Rightarrow> (bytes \<times> th_ct) list \<Rightarrow> bytes
     \<Rightarrow> bytes list \<Rightarrow> bytes list \<Rightarrow> error + bytes list" where
  "th_eval_loop G C d0 d1 ae1_key [] pt_intersection = Inr pt_intersection"
| "th_eval_loop G C d0 d1 ae1_key (k # ks) pt_intersection =
     (case th_recover G C d0 d1 ae1_key k of
        Inl e \<Rightarrow> Inl e
      | Inr pt \<Rightarrow> th_eval_loop G C d0 d1 ae1_key ks (set_add pt pt_intersection))"

text \<open>\<^verbatim>\<open>sum([y * delta(xs, x) for x, y in zip(xs, ys)])\<close>, on the list of the pairs \<open>(x, y)\<close>.\<close>

definition lagrange_c0 :: "int \<Rightarrow> (int \<times> int) list \<Rightarrow> int" where
  "lagrange_c0 q ps = zr_sum q (map (\<lambda>(x, y). zr q (y * delta q (map fst ps) x)) ps)"

definition th_eval ::
  "'g ecgroup \<Rightarrow> crypto \<Rightarrow> 'g tscheme \<Rightarrow> (bytes list \<Rightarrow> bytes list)
     \<Rightarrow> (bytes \<times> th_ct) list list \<Rightarrow> error + (int \<times> bytes list)" where
  "th_eval G C self order ct_sets =
     (case ct_sets of
        d0 # d1 # _ \<Rightarrow>
          (let ct_intersection = order (common_keys d0 d1);
               cardinality = int (length ct_intersection)
           in case t_threshold self of
                None \<Rightarrow> Inl AttributeError
              | Some t \<Rightarrow>
                  if cardinality \<ge> t then
                    (if t < 0 then Inl ValueError
                     else case th_points G d0 d1 (take (nat t) ct_intersection) of
                            Inl e \<Rightarrow> Inl e
                          | Inr ps \<Rightarrow>
                              if t = 0 then Inl TypeError
                              else
                                (let c0 = lagrange_c0 (g_order G) ps;
                                     ae1_key = H_key C (zr_serialize G c0)
                                 in case th_eval_loop G C d0 d1 ae1_key ct_intersection [] of
                                      Inl e \<Rightarrow> Inl e
                                    | Inr pt_intersection \<Rightarrow>
                                        Inr (cardinality, pt_intersection)))
                  else Inr (cardinality, []))
      | _ \<Rightarrow> Inl IndexError)"

section \<open>Stand-ins for the libraries\<close>

text \<open>
  Stand-ins for SHA-256 and AES-GCM, used only where a statement is run on concrete data.
  The hash pads or cuts its input to 32 bytes and reads them as a word; the
  authenticated cipher appends a 16-byte tag made from the key to the plaintext, and
  decryption fails unless the tag is the one of the key.
\<close>

definition demo_tag :: "bytes \<Rightarrow> bytes" where
  "demo_tag key = take 16 (key @ replicate 16 0)"

definition demo_crypto :: crypto where
  "demo_crypto =
     \<lparr>aes_cbc = demo_cbc,
      sha256 = (\<lambda>x. word_of_int (int_from_bytes (take 32 (x @ replicate 32 0)))),
      gcm_encrypt = (\<lambda>key nonce pt. pt @ demo_tag key),
      gcm_decrypt = (\<lambda>key nonce ct.
         if 16 \<le> length ct \<and> drop (length ct - 16) ct = demo_tag key
         then Some (take (length ct - 16) ct) else None)\<rparr>"

text \<open>
  A run of the threshold scheme on the stand-ins, with the threshold 2: the state of the
  scheme and the two keys that \<^verbatim>\<open>setup(128, 2)\<close> returns, and the dictionaries that
  \<^verbatim>\<open>encrypt\<close> returns to the two clients for the set \<open>{b"\\x05", b"\\x06"}\<close> (lemmas
  \<open>demo_th_setup\<close>, \<open>demo_th_encrypt0\<close> and \<open>demo_th_encrypt1\<close>). The plaintext
  \<open>b"\\x05"\<close> has the key \<open>b"\\x02"\<close> and \<open>b"\\x06"\<close> has the key \<open>b"\\x04"\<close>; every nonce
  is 12 bytes long.
\<close>

definition demo_th_self :: "point5 tscheme" where
  "demo_th_self = \<lparr>t_gen = P1, t_secpar = Some 128, t_threshold = Some 2, t_ff_order = Some 4\<rparr>"

definition demo_usk0 :: th_usk where
  "demo_usk0 = (replicate 16 1, replicate 16 2, replicate 16 3, 3, 1)"

definition demo_usk1 :: th_usk where
  "demo_usk1 = (replicate 16 1, replicate 16 2, replicate 16 3, 3, 0)"

definition demo_d0 :: "(bytes \<times> th_ct) list" where
  "demo_d0 =
     [([2], [1],
       ([0, 1, 2, 3, 4, 5, 6, 7, 8, 9, 10, 11], [2, 0, 1, 0, 0, 0, 0, 0, 0, 0, 0, 0, 0, 0, 0, 0, 0]),
       ([12, 13, 14, 15, 16, 17, 18, 19, 20, 21, 22, 23],
        [5, 0, 4, 0, 0, 0, 0, 0, 0, 0, 0, 0, 0, 0, 0, 0, 0])),
      ([4], [1],
       ([0, 1, 2, 3, 4, 5, 6, 7, 8, 9, 10, 11], [1, 0, 1, 0, 0, 0, 0, 0, 0, 0, 0, 0, 0, 0, 0, 0, 0]),
       ([24, 25, 26, 27, 28, 29, 30, 31, 32, 33, 34, 35],
        [6, 0, 2, 0, 0, 0, 0, 0, 0, 0, 0, 0, 0, 0, 0, 0, 0]))]"

definition demo_d1 :: "(bytes \<times> th_ct) list" where
  "demo_d1 =
     [([4], [1],
       ([0, 1, 2, 3, 4, 5, 6, 7, 8, 9, 10, 11], [1, 0, 1, 0, 0, 0, 0, 0, 0, 0, 0, 0, 0, 0, 0, 0, 0]),
       ([12, 13, 14, 15, 16, 17, 18, 19, 20, 21, 22, 23],
        [6, 0, 2, 0, 0, 0, 0, 0, 0, 0, 0, 0, 0, 0, 0, 0, 0])),
      ([2], [1],
       ([0, 1, 2, 3, 4, 5, 6, 7, 8, 9, 10, 11], [2, 0, 1, 0, 0, 0, 0, 0, 0, 0, 0, 0, 0, 0, 0, 0, 0]),
       ([24, 25, 26, 27, 28, 29, 30, 31, 32, 33, 34, 35],
        [5, 0, 4, 0, 0, 0, 0, 0, 0, 0, 0, 0, 0, 0, 0, 0, 0]))]"

text \<open>
  A dictionary in which the ciphertext of the share \<^verbatim>\<open>k1 ** sigma\<close> that is stored under
  the key \<open>k\<close> has been changed in its last byte, which is a byte of the tag.
\<close>

definition tamper :: "bytes \<Rightarrow> (bytes \<times> th_ct) list \<Rightarrow> (bytes \<times> th_ct) list" where
  "tamper k d =
     map (\<lambda>(k', ct2, (nonce, ct), ct4).
            if k' = k then (k', ct2, (nonce, butlast ct @ [last ct + 1]), ct4)
            else (k', ct2, (nonce, ct), ct4)) d"

section \<open>Multi-client cardinality: encryption and evaluation\<close>

text \<open>
  \<^verbatim>\<open>
    def encrypt(self, usk, gid, pt_set):
        H = self.group.hash
        ct_set = {self.group.serialize(H(gid + pt, G)**usk) for pt in pt_set}
        return ct_set
  \<close>
\<close>

definition mc_ct :: "'g ecgroup \<Rightarrow> int \<Rightarrow> bytes \<Rightarrow> bytes \<Rightarrow> bytes" where
  "mc_ct G usk gid pt = g_serialize G (g_pow G (g_hash G (gid @ pt)) usk)"

definition mc_encrypt :: "'g ecgroup \<Rightarrow> int \<Rightarrow> bytes \<Rightarrow> bytes list \<Rightarrow> bytes list" where
  "mc_encrypt G usk gid pt_set = remdups (map (mc_ct G usk gid) pt_set)"

text \<open>
  \<^verbatim>\<open>
    def eval(self, ct_sets):
        one = self.g ** 0
        def intersection_count(ct_sets, product=one):
            ct_set, ct_sets = set(ct_sets[-1]), ct_sets[:-1]
            count = 0
            if ct_sets == []:
                for ct_str in ct_set:
                    ct = self.group.deserialize(ct_str)
                    if product * ct == one:
                        ct_set.remove(ct_str)
                        count = 1
                        break
            else:
                for ct_str in ct_set.copy():
                    ct = self.group.deserialize(ct_str)
                    found, ct_sets = intersection_count(ct_sets, product * ct)
                    if found == 1:
                        ct_set.remove(ct_str)
                        count += 1
            ct_sets.append(ct_set)
            return (count, ct_sets)
        cardinality, _ = intersection_count(list(ct_sets))
        return cardinality
  \<close>
  The first loop stops at the first ciphertext that completes the product to the
  identity.
\<close>

definition leaf_scan :: "'g ecgroup \<Rightarrow> 'g \<Rightarrow> 'g \<Rightarrow> bytes list \<Rightarrow> nat \<times> bytes list" where
  "leaf_scan G one product ct_set =
     (case find (\<lambda>ct_str. g_mul G product (g_deserialize G ct_str) = one) ct_set of
        None \<Rightarrow> (0, ct_set)
      | Some ct_str \<Rightarrow> (1, removeAll ct_str ct_set))"

text \<open>
  One pass through the body of the second loop: \<open>call\<close> is the recursive call, and the
  state of the loop is the counter, the list \<^verbatim>\<open>ct_sets\<close>, which every call replaces, and
  the set \<^verbatim>\<open>ct_set\<close>, which loses the ciphertexts that were found.
\<close>

definition branch_step ::
  "'g ecgroup \<Rightarrow> (bytes list list \<Rightarrow> 'g \<Rightarrow> nat \<times> bytes list list) \<Rightarrow> 'g
     \<Rightarrow> nat \<times> bytes list list \<times> bytes list \<Rightarrow> bytes \<Rightarrow> nat \<times> bytes list list \<times> bytes list" where
  "branch_step G call product st ct_str =
     (case st of (count, ct_sets, ct_set) \<Rightarrow>
        (case call ct_sets (g_mul G product (g_deserialize G ct_str)) of
           (found, ct_sets') \<Rightarrow>
             if found = 1 then (count + 1, ct_sets', removeAll ct_str ct_set)
             else (count, ct_sets', ct_set)))"

text \<open>
  The recursion of \<^verbatim>\<open>intersection_count\<close> goes through the list that the previous call
  returned. It is written here by recursion on the number \<open>d\<close> of sets below the last
  one: \<open>d = 0\<close> is the branch \<^verbatim>\<open>ct_sets == []\<close>. Every call returns as many sets as it was
  given (lemma \<open>ic_length\<close>), so that \<open>d\<close> and the length of the list stay in step, and
  the function satisfies the recursion equation of the source (lemma
  \<open>intersection_count_rec\<close>).
\<close>

fun ic :: "'g ecgroup \<Rightarrow> 'g \<Rightarrow> nat \<Rightarrow> bytes list list \<Rightarrow> 'g \<Rightarrow> nat \<times> bytes list list" where
  "ic G one 0 ct_sets product =
     (case leaf_scan G one product (remdups (last ct_sets)) of
        (count, ct_set) \<Rightarrow> (count, butlast ct_sets @ [ct_set]))"
| "ic G one (Suc d) ct_sets product =
     (case foldl (branch_step G (ic G one d) product)
             (0, butlast ct_sets, remdups (last ct_sets)) (remdups (last ct_sets)) of
        (count, ct_sets', ct_set) \<Rightarrow> (count, ct_sets' @ [ct_set]))"

definition intersection_count ::
  "'g ecgroup \<Rightarrow> 'g \<Rightarrow> bytes list list \<Rightarrow> 'g \<Rightarrow> nat \<times> bytes list list" where
  "intersection_count G one ct_sets product = ic G one (length ct_sets - 1) ct_sets product"

text \<open>\<^verbatim>\<open>ct_sets[-1]\<close> raises \<^verbatim>\<open>IndexError\<close> when there is no set at all.\<close>

definition mc_eval :: "'g ecgroup \<Rightarrow> 'g scheme \<Rightarrow> bytes list list \<Rightarrow> error + nat" where
  "mc_eval G self ct_sets =
     (let one = g_pow G (gen self) 0
      in if ct_sets = [] then Inl IndexError
         else Inr (fst (intersection_count G one ct_sets one)))"

section \<open>Multi-client cardinality with Bloom filters: encryption\<close>

text \<open>
  \<^verbatim>\<open>
    def encrypt(self, usk, gid, pt_set):
        phi_key, fi, fni = usk
        H = self.group.hash
        bf_set = BloomFilter(self.m, self.k)
        iv = gid
        cipher = Cipher(algorithms.AES(phi_key), modes.CBC(iv), backend=default_backend())
        ct_elements = []
        for pt in pt_set:
            ct = self._prf(cipher, pt)
            bf_set.add(ct)
            bf = BloomFilter(self.m, self.k)
            bf.add(ct)
            t = bf.weight()
            ct_element = []
            for i in range(bf.m):
                ct = H(i.to_bytes(self.k.bit_length(), 'big') + gid, G) ** fni
                gr = self.group.random(G)
                if bf.bs[i] == 0:
                    grho = self.group.random(G)
                else:
                    grho = gr ** t
                ct *= grho
                ct_element.append((ct, gr))
            ct_elements.append(ct_element)
        ct_bf_set = []
        for i in range(bf_set.m):
            ct = H(i.to_bytes(self.k.bit_length(), 'big') + gid, G) ** fi
            if bf_set.bs[i] == 0:
                ct *= self.group.random(G)
            ct_bf_set.append(ct)
        return (ct_bf_set, ct_elements)
  \<close>
  \<open>rg j\<close> is the \<open>j\<close>-th point drawn by \<^verbatim>\<open>group.random(G)\<close>; every loop takes the number of
  points drawn so far and returns it with its result. Here \<^verbatim>\<open>i.to_bytes\<close> can overflow:
  the index \<open>i\<close> runs over the \<open>m\<close> bit positions, and the width is the bit length of \<open>k\<close>.
\<close>

fun eff_elem_loop ::
  "'g ecgroup \<Rightarrow> (nat \<Rightarrow> 'g) \<Rightarrow> bytes \<Rightarrow> int \<Rightarrow> int \<Rightarrow> bitstring \<Rightarrow> nat \<Rightarrow> nat list \<Rightarrow> nat
     \<Rightarrow> ('g \<times> 'g) list \<Rightarrow> error + (('g \<times> 'g) list \<times> nat)" where
  "eff_elem_loop G rg gid k fni b t [] n ct_element = Inr (ct_element, n)"
| "eff_elem_loop G rg gid k fni b t (i # is) n ct_element =
     (case to_bytes (int i) (bit_length k) of
        Inl e \<Rightarrow> Inl e
      | Inr pre \<Rightarrow>
          (let ct = g_pow G (g_hash G (pre @ gid)) fni;
               gr = rg n
           in case bs_getitem b (int i) of
                Inl e \<Rightarrow> Inl e
              | Inr v \<Rightarrow>
                  if v = 0
                  then (let grho = rg (Suc n)
                        in eff_elem_loop G rg gid k fni b t is (Suc (Suc n))
                             (ct_element @ [(g_mul G ct grho, gr)]))
                  else (let grho = g_pow G gr (int t)
                        in eff_elem_loop G rg gid k fni b t is (Suc n)
                             (ct_element @ [(g_mul G ct grho, gr)]))))"

fun eff_set_loop ::
  "'g ecgroup \<Rightarrow> mmh3 \<Rightarrow> (nat \<Rightarrow> 'g) \<Rightarrow> cipher \<Rightarrow> bytes \<Rightarrow> int \<Rightarrow> int \<Rightarrow> int \<Rightarrow> bytes list
     \<Rightarrow> bloom \<Rightarrow> nat \<Rightarrow> ('g \<times> 'g) list list
     \<Rightarrow> error + (bloom \<times> ('g \<times> 'g) list list \<times> nat)" where
  "eff_set_loop G M rg cipher gid m k fni [] bf_set n ct_elements = Inr (bf_set, ct_elements, n)"
| "eff_set_loop G M rg cipher gid m k fni (pt # pts) bf_set n ct_elements =
     (let ct = prf_aes cipher pt
      in case bf_add bf_set ct of
           Inl e \<Rightarrow> Inl e
         | Inr bf_set' \<Rightarrow>
        (case BloomFilter_init M m k of
           Inl e \<Rightarrow> Inl e
         | Inr bf0 \<Rightarrow>
        (case bf_add bf0 ct of
           Inl e \<Rightarrow> Inl e
         | Inr bf \<Rightarrow>
        (let t = bf_weight bf
         in case eff_elem_loop G rg gid k fni (bf_bs bf) t [0..<nat (bf_m bf)] n [] of
              Inl e \<Rightarrow> Inl e
            | Inr (ct_element, n') \<Rightarrow>
                eff_set_loop G M rg cipher gid m k fni pts bf_set' n'
                  (ct_elements @ [ct_element])))))"

fun eff_bf_loop ::
  "'g ecgroup \<Rightarrow> (nat \<Rightarrow> 'g) \<Rightarrow> bytes \<Rightarrow> int \<Rightarrow> int \<Rightarrow> bitstring \<Rightarrow> nat list \<Rightarrow> nat \<Rightarrow> 'g list
     \<Rightarrow> error + ('g list \<times> nat)" where
  "eff_bf_loop G rg gid k fi b [] n ct_bf_set = Inr (ct_bf_set, n)"
| "eff_bf_loop G rg gid k fi b (i # is) n ct_bf_set =
     (case to_bytes (int i) (bit_length k) of
        Inl e \<Rightarrow> Inl e
      | Inr pre \<Rightarrow>
          (let ct = g_pow G (g_hash G (pre @ gid)) fi
           in case bs_getitem b (int i) of
                Inl e \<Rightarrow> Inl e
              | Inr v \<Rightarrow>
                  if v = 0
                  then eff_bf_loop G rg gid k fi b is (Suc n) (ct_bf_set @ [g_mul G ct (rg n)])
                  else eff_bf_loop G rg gid k fi b is n (ct_bf_set @ [ct])))"

definition eff_encrypt ::
  "'g ecgroup \<Rightarrow> crypto \<Rightarrow> mmh3 \<Rightarrow> (nat \<Rightarrow> 'g) \<Rightarrow> 'g scheme \<Rightarrow> bytes \<times> int \<times> int \<Rightarrow> bytes
     \<Rightarrow> bytes list \<Rightarrow> error + ('g list \<times> ('g \<times> 'g) list list)" where
  "eff_encrypt G C M rg self usk gid pt_set =
     (case usk of (phi_key, fi, fni) \<Rightarrow>
        (case attr_m self of
           None \<Rightarrow> Inl AttributeError
         | Some m \<Rightarrow>
        (case attr_k self of
           None \<Rightarrow> Inl AttributeError
         | Some k \<Rightarrow>
        (case BloomFilter_init M m k of
           Inl e \<Rightarrow> Inl e
         | Inr bf_set \<Rightarrow>
        (case new_cipher (aes_cbc C) phi_key gid of
           Inl e \<Rightarrow> Inl e
         | Inr cipher \<Rightarrow>
        (case eff_set_loop G M rg cipher gid m k fni pt_set bf_set 0 [] of
           Inl e \<Rightarrow> Inl e
         | Inr (bf_set', ct_elements, n) \<Rightarrow>
        (case eff_bf_loop G rg gid k fi (bf_bs bf_set') [0..<nat (bf_m bf_set')] n [] of
           Inl e \<Rightarrow> Inl e
         | Inr (ct_bf_set, _) \<Rightarrow> Inr (ct_bf_set, ct_elements))))))))"

definition demo_mmh3 :: mmh3 where
  "demo_mmh3 = \<lparr>mmh3_hash = int_from_bytes, mmh3_hash128 = int_from_bytes\<rparr>"

section \<open>What is assumed of the libraries, and the runs that the tests make\<close>

text \<open>
  The laws of the group that the correctness of the schemes rests on: a commutative
  group whose identity is the power 0 of any point, in which every point has an order
  that divides \<open>q\<close>, and a serialisation of points that \<^verbatim>\<open>deserialize\<close> inverts.
\<close>

definition group_laws :: "'g ecgroup \<Rightarrow> bool" where
  "group_laws G \<longleftrightarrow>
     0 < g_order G \<and>
     (\<forall>a b c. g_mul G (g_mul G a b) c = g_mul G a (g_mul G b c)) \<and>
     (\<forall>a b. g_mul G a b = g_mul G b a) \<and>
     (\<forall>a b. g_mul G (g_pow G b 0) a = a) \<and>
     (\<forall>a. g_pow G a 1 = a) \<and>
     (\<forall>a x y. g_pow G a (x + y) = g_mul G (g_pow G a x) (g_pow G a y)) \<and>
     (\<forall>a x. g_pow G a (x mod g_order G) = g_pow G a x) \<and>
     (\<forall>a. g_deserialize G (g_serialize G a) = a)"

text \<open>AES-GCM decrypts what it encrypted under the same key and nonce.\<close>

definition aead_laws :: "crypto \<Rightarrow> bool" where
  "aead_laws C \<longleftrightarrow>
     (\<forall>key nonce pt. gcm_decrypt C key nonce (gcm_encrypt C key nonce pt) = Some pt)"

text \<open>
  The run of \<^verbatim>\<open>IntersectionTestCase.test_correctness\<close>: the keys of \<^verbatim>\<open>setup\<close>, one
  \<^verbatim>\<open>encrypt\<close> for each client, and \<^verbatim>\<open>eval\<close> on the two ciphertexts.
\<close>

definition int_protocol ::
  "'g ecgroup \<Rightarrow> crypto \<Rightarrow> (nat \<Rightarrow> byte) \<Rightarrow> (nat \<Rightarrow> int) \<Rightarrow> 'g tscheme \<Rightarrow> int \<Rightarrow> bytes
     \<Rightarrow> bytes list \<Rightarrow> bytes list \<Rightarrow> error + bytes list" where
  "int_protocol G C ent rnd self secpar gid S0 S1 =
     (case int_setup G ent rnd self secpar of
        (self', Inl e) \<Rightarrow> Inl e
      | (self', Inr (usk0, usk1)) \<Rightarrow>
          (case int_encrypt G C self' usk0 gid S0 of
             Inl e \<Rightarrow> Inl e
           | Inr d0 \<Rightarrow>
               (case int_encrypt G C self' usk1 gid S1 of
                  Inl e \<Rightarrow> Inl e
                | Inr d1 \<Rightarrow> int_eval G C [d0, d1])))"

text \<open>The dictionary key that the intersection scheme gives to a plaintext.\<close>

definition int_key :: "'g ecgroup \<Rightarrow> crypto \<Rightarrow> 'g \<Rightarrow> cipher \<Rightarrow> bytes \<Rightarrow> bytes" where
  "int_key G C g cipher pt = H_key C (g_serialize G (phi G g cipher pt))"

text \<open>
  The run of \<^verbatim>\<open>CardinalityTestCase.test_correctness\<close> of the multi-client scheme: the keys
  of \<^verbatim>\<open>setup\<close>, one \<^verbatim>\<open>encrypt\<close> for each client with its own key, and \<^verbatim>\<open>eval\<close> on the list
  of the ciphertext sets.
\<close>

definition mc_protocol ::
  "'g ecgroup \<Rightarrow> (nat \<Rightarrow> int) \<Rightarrow> 'g scheme \<Rightarrow> int \<Rightarrow> int \<Rightarrow> bytes \<Rightarrow> bytes list list
     \<Rightarrow> error + nat" where
  "mc_protocol G rnd self secpar n gid pt_sets =
     (case mc_setup G rnd self secpar n of
        (self', usks) \<Rightarrow>
          mc_eval G self' (map (\<lambda>(usk, pt_set). mc_encrypt G usk gid pt_set) (zip usks pt_sets)))"

text \<open>
  The product that \<^verbatim>\<open>intersection_count\<close> forms from a tuple of ciphertexts, one from
  each set: it starts from \<open>p\<close> and multiplies with the ciphertext of the last set first.
  A tuple is a match when the product is the identity.
\<close>

definition gprod :: "'g ecgroup \<Rightarrow> 'g \<Rightarrow> bytes list \<Rightarrow> 'g" where
  "gprod G p cs = foldr (\<lambda>c acc. g_mul G acc (g_deserialize G c)) cs p"

definition is_match :: "'g ecgroup \<Rightarrow> 'g \<Rightarrow> bytes list list \<Rightarrow> 'g \<Rightarrow> bytes list \<Rightarrow> bool" where
  "is_match G one As p cs \<longleftrightarrow> list_all2 (\<lambda>c A. c \<in> set A) cs As \<and> gprod G p cs = one"

definition matches :: "'g ecgroup \<Rightarrow> 'g \<Rightarrow> bytes list list \<Rightarrow> 'g \<Rightarrow> bytes list set" where
  "matches G one As p = {cs. is_match G one As p cs}"

text \<open>
  No ciphertext takes part in two matches; where there is one set only, there is at
  most one match.
\<close>

definition unique_matches :: "'g ecgroup \<Rightarrow> 'g \<Rightarrow> bytes list list \<Rightarrow> 'g \<Rightarrow> bool" where
  "unique_matches G one As p \<longleftrightarrow>
     (\<forall>cs cs'. is_match G one As p cs \<and> is_match G one As p cs' \<and>
        (length As = 1 \<or> (\<exists>i < length As. cs ! i = cs' ! i)) \<longrightarrow> cs = cs')"

text \<open>The sets without the ciphertexts of the tuples in \<open>X\<close>.\<close>

definition prune :: "bytes list list \<Rightarrow> bytes list set \<Rightarrow> bytes list list" where
  "prune As X = map (\<lambda>i. filter (\<lambda>c. \<forall>cs \<in> X. cs ! i \<noteq> c) (As ! i)) [0..<length As]"

text \<open>
  The assumption on the hash and the keys under which the scheme is correct: a tuple of
  plaintexts, one from each client's set, whose ciphertexts multiply to the identity
  consists of one and the same plaintext.
\<close>

definition no_spurious_match ::
  "'g ecgroup \<Rightarrow> 'g \<Rightarrow> bytes \<Rightarrow> int list \<Rightarrow> bytes list list \<Rightarrow> bool" where
  "no_spurious_match G one gid usks pt_sets \<longleftrightarrow>
     (\<forall>xs. list_all2 (\<lambda>x S. x \<in> set S) xs pt_sets \<and>
           gprod G one (map (\<lambda>(usk, x). mc_ct G usk gid x) (zip usks xs)) = one
           \<longrightarrow> (\<forall>x \<in> set xs. x = hd xs))"

section \<open>Auxiliary definitions for the proofs\<close>

text \<open>The dictionary that a loop of assignments \<^verbatim>\<open>d[k] = v\<close> builds, read as a map.\<close>

definition assign_loop :: "('a \<Rightarrow> 'k \<times> 'v) \<Rightarrow> ('k \<times> 'v) list \<Rightarrow> 'a list \<Rightarrow> ('k \<times> 'v) list" where
  "assign_loop f d0 pts = foldl (\<lambda>d pt. case f pt of (k, v) \<Rightarrow> AList.update k v d) d0 pts"

section \<open>Properties\<close>

subsection \<open>The PRF\<close>

lemma length_zero_pad: "length (zero_pad pt) = 16 * (length pt div 16 + 1)"
proof -
  have "length pt mod 16 < 16" by simp
  then have "length pt + (16 - length pt mod 16) = 16 * (length pt div 16) + 16"
    using div_mult_mod_eq [of "length pt" 16] by linarith
  then show ?thesis by (simp add: zero_pad_def)
qed

text \<open>
  C4, as the code has it. The PRF appends between 1 and 16 zero bytes, also to an input
  whose length is already a multiple of 16, and returns the cipher's output on the
  padded input; for a cipher that keeps the length of whole blocks the output is
  \<open>16 \<sqdot> (\<lfloor>len pt / 16\<rfloor> + 1)\<close> bytes long, a whole number of blocks and strictly longer
  than the input.
\<close>

theorem prf_output_length:
  assumes "\<forall>d. length d mod 16 = 0 \<longrightarrow> length (cipher d) = length d"
  shows "prf_aes cipher pt = cipher (pt @ replicate (16 - length pt mod 16) 0)
       \<and> length (prf_aes cipher pt) = 16 * (length pt div 16 + 1)
       \<and> length (prf_aes cipher pt) mod 16 = 0
       \<and> length pt < length (prf_aes cipher pt)"
proof -
  have len: "length (zero_pad pt) = 16 * (length pt div 16 + 1)"
    by (rule length_zero_pad)
  then have "length (zero_pad pt) mod 16 = 0" by simp
  with assms have "length (prf_aes cipher pt) = length (zero_pad pt)"
    by (simp add: prf_aes_def)
  moreover have "length pt < 16 * (length pt div 16 + 1)"
  proof -
    have "length pt mod 16 < 16" by simp
    then show ?thesis using div_mult_mod_eq [of "length pt" 16] by presburger
  qed
  ultimately show ?thesis using len by (simp add: prf_aes_def zero_pad_def)
qed

lemma demo_cbc_length: "length (demo_cbc key iv d) = length d"
  by (simp add: demo_cbc_def)

theorem prf_output_length_witness:
  "prf_aes (demo_cbc [1] []) [7, 7, 7] = demo_cbc [1] [] ([7, 7, 7] @ replicate 13 0)
   \<and> length (prf_aes (demo_cbc [1] []) [7, 7, 7]) = 16"
  using prf_output_length [of "demo_cbc [1] []" "[7, 7, 7]"]
  by (simp add: demo_cbc_length)

text \<open>
  C4, as the claim has it, fails on an input of exactly one block: the output has 32
  bytes, not 16.
\<close>

theorem prf_block_multiple_counterexample:
  "length (replicate 16 (0 :: byte)) = 16
   \<and> length (prf_aes (demo_cbc [1] []) (replicate 16 0)) = 32
   \<and> 16 * ((length (replicate 16 (0 :: byte)) + 15) div 16) = 16"
  by (simp add: prf_aes_def zero_pad_def demo_cbc_length)

subsection \<open>Key generation of the multi-client cardinality scheme\<close>

lemma zr_sum_mod: "zr_sum q xs mod q = sum_list xs mod q"
proof -
  have "foldl (\<lambda>acc x. zr q (acc + x)) a xs mod q = (a + sum_list xs) mod q" for a
  proof (induction xs arbitrary: a)
    case Nil
    then show ?case by simp
  next
    case (Cons x xs)
    have "(zr q (a + x) + sum_list xs) mod q = (a + x + sum_list xs) mod q"
      by (simp add: zr_def mod_add_left_eq)
    with Cons show ?case by (simp add: add.assoc)
  qed
  from this [of 0] show ?thesis by (simp add: zr_sum_def)
qed

text \<open>
  C5. For a client count \<open>n \<ge> 1\<close> the setup returns exactly \<open>n\<close> scalars of \<open>\<int>\<^sub>q\<close>, and
  their sum is 0 modulo the group order \<open>q\<close>, whatever the random draws are.
\<close>

theorem mc_setup_sum_zero:
  assumes "1 \<le> n" and "0 < g_order G"
  shows "int (length (snd (mc_setup G rnd self secpar n))) = n
       \<and> sum_list (snd (mc_setup G rnd self secpar n)) mod g_order G = 0
       \<and> zr_sum (g_order G) (snd (mc_setup G rnd self secpar n)) = 0
       \<and> (\<forall>s \<in> set (snd (mc_setup G rnd self secpar n)). 0 \<le> s \<and> s < g_order G)"
proof -
  define q where "q = g_order G"
  define us where "us = map (\<lambda>i. zr q (rnd i)) [0..<nat (n - 1)]"
  have res: "snd (mc_setup G rnd self secpar n) = us @ [zr_neg q (zr_sum q us)]"
    by (simp add: mc_setup_def Let_def q_def us_def)
  have q: "0 < q" using assms(2) by (simp add: q_def)
  have len: "int (length (us @ [zr_neg q (zr_sum q us)])) = n"
    using assms(1) by (simp add: us_def)
  have "sum_list (us @ [zr_neg q (zr_sum q us)]) mod q
        = (sum_list us + (- zr_sum q us)) mod q"
    by (simp add: zr_neg_def zr_def mod_add_right_eq)
  also have "\<dots> = (sum_list us mod q - zr_sum q us mod q) mod q"
    by (simp add: mod_diff_eq)
  also have "\<dots> = 0"
    by (simp add: zr_sum_mod)
  finally have s: "sum_list (us @ [zr_neg q (zr_sum q us)]) mod q = 0" .
  have rng: "\<forall>s \<in> set (us @ [zr_neg q (zr_sum q us)]). 0 \<le> s \<and> s < q"
    using q by (auto simp: us_def zr_neg_def zr_def)
  have "zr_sum q ys = zr_sum q ys mod q" if "ys \<noteq> []" for ys
  proof -
    from that obtain zs z where "ys = zs @ [z]" by (metis rev_exhaust)
    then show ?thesis by (simp add: zr_sum_def zr_def)
  qed
  then have "zr_sum q (us @ [zr_neg q (zr_sum q us)]) = 0"
    using s by (simp add: zr_sum_mod)
  with res len s rng show ?thesis by (simp add: q_def)
qed

theorem mc_setup_sum_zero_witness:
  "snd (mc_setup demo_group (\<lambda>i. 3 + int i)
          \<lparr>gen = P1, client_count = None, attr_m = None, attr_k = None\<rparr> 128 3) = [3, 4, 3]
   \<and> sum_list [3, 4, 3 :: int] mod 5 = 0"
  using mc_setup_sum_zero [of 3 demo_group "\<lambda>i. 3 + int i"
      "\<lparr>gen = P1, client_count = None, attr_m = None, attr_k = None\<rparr>" 128]
  by (simp add: mc_setup_def demo_group_def zr_def zr_neg_def zr_sum_def numeral_2_eq_2)

subsection \<open>Key generation of the Bloom-filter scheme\<close>

lemma eff_setup_arg: "eff_setup G ent rnd self secpar n m k = eff_setup G ent rnd self secpar n' m k"
  by (simp add: eff_setup_def)

lemma eff_setup_attr: "client_count (fst (eff_setup G ent rnd self secpar n m k)) = client_count self"
  by (simp add: eff_setup_def Let_def split: sum.splits option.splits)

lemma eff_setup_None:
  "0 \<le> secpar \<Longrightarrow> client_count self = None \<Longrightarrow>
   snd (eff_setup G ent rnd self secpar n m k) = Inl AttributeError"
  by (simp add: eff_setup_def os_urandom_def Let_def)

lemma eff_setup_Some:
  "0 \<le> secpar \<Longrightarrow> client_count self = Some cc \<Longrightarrow>
   snd (eff_setup G ent rnd self secpar n m k) =
     Inr (map (\<lambda>i. (map ent [0..<nat (secpar div 8)],
                      shamir_poly (g_order G) (0 # map (\<lambda>i. zr (g_order G) (rnd i)) [0..<nat cc]) i,
                      shamir_poly (g_order G) (0 # map (\<lambda>i. zr (g_order G) (rnd i)) [0..<nat cc]) (cc + i)))
           [1..cc])"
  by (simp add: eff_setup_def os_urandom_def Let_def)

text \<open>
  C10. \<^verbatim>\<open>CardinalityEfficient.setup\<close> never reads its \<^verbatim>\<open>client_count\<close> parameter: two calls
  that differ only in that argument give the same result. It leaves the attribute
  \<^verbatim>\<open>self.client_count\<close> as it found it. Once \<^verbatim>\<open>os.urandom\<close> has returned (the byte
  count \<^verbatim>\<open>secpar // 8\<close> is not negative), the call raises \<^verbatim>\<open>AttributeError\<close> if the
  attribute was never assigned, and otherwise returns one key per client of the
  attribute, made from a polynomial with the coefficient 0 followed by as many random
  coefficients as the attribute says.
\<close>

theorem eff_setup_ignores_client_count:
  "eff_setup G ent rnd self secpar n m k = eff_setup G ent rnd self secpar n' m k
   \<and> client_count (fst (eff_setup G ent rnd self secpar n m k)) = client_count self
   \<and> (0 \<le> secpar \<longrightarrow>
        (case client_count self of
           None \<Rightarrow> snd (eff_setup G ent rnd self secpar n m k) = Inl AttributeError
         | Some cc \<Rightarrow>
             (\<exists>phi_key cs.
                length cs = 1 + nat cc \<and> hd cs = 0 \<and>
                snd (eff_setup G ent rnd self secpar n m k) =
                  Inr (map (\<lambda>i. (phi_key, shamir_poly (g_order G) cs i,
                                   shamir_poly (g_order G) cs (cc + i))) [1..cc]) \<and>
                length (map (\<lambda>i. (phi_key, shamir_poly (g_order G) cs i,
                                   shamir_poly (g_order G) cs (cc + i))) [1..cc]) = nat cc)))"
proof (intro conjI impI)
  show "eff_setup G ent rnd self secpar n m k = eff_setup G ent rnd self secpar n' m k"
    by (rule eff_setup_arg)
  show "client_count (fst (eff_setup G ent rnd self secpar n m k)) = client_count self"
    by (rule eff_setup_attr)
  assume sp: "0 \<le> secpar"
  show "case client_count self of
           None \<Rightarrow> snd (eff_setup G ent rnd self secpar n m k) = Inl AttributeError
         | Some cc \<Rightarrow>
             (\<exists>phi_key cs.
                length cs = 1 + nat cc \<and> hd cs = 0 \<and>
                snd (eff_setup G ent rnd self secpar n m k) =
                  Inr (map (\<lambda>i. (phi_key, shamir_poly (g_order G) cs i,
                                   shamir_poly (g_order G) cs (cc + i))) [1..cc]) \<and>
                length (map (\<lambda>i. (phi_key, shamir_poly (g_order G) cs i,
                                   shamir_poly (g_order G) cs (cc + i))) [1..cc]) = nat cc)"
  proof (cases "client_count self")
    case None
    with sp show ?thesis by (simp add: eff_setup_None)
  next
    case (Some cc)
    let ?cs = "0 # map (\<lambda>i. zr (g_order G) (rnd i)) [0..<nat cc]"
    let ?key = "map ent [0..<nat (secpar div 8)]"
    have "length ?cs = 1 + nat cc \<and> hd ?cs = 0 \<and>
          snd (eff_setup G ent rnd self secpar n m k) =
            Inr (map (\<lambda>i. (?key, shamir_poly (g_order G) ?cs i,
                             shamir_poly (g_order G) ?cs (cc + i))) [1..cc]) \<and>
          length (map (\<lambda>i. (?key, shamir_poly (g_order G) ?cs i,
                             shamir_poly (g_order G) ?cs (cc + i))) [1..cc]) = nat cc"
      using sp Some by (simp add: eff_setup_Some)
    then have "\<exists>phi_key cs.
                length cs = 1 + nat cc \<and> hd cs = 0 \<and>
                snd (eff_setup G ent rnd self secpar n m k) =
                  Inr (map (\<lambda>i. (phi_key, shamir_poly (g_order G) cs i,
                                   shamir_poly (g_order G) cs (cc + i))) [1..cc]) \<and>
                length (map (\<lambda>i. (phi_key, shamir_poly (g_order G) cs i,
                                   shamir_poly (g_order G) cs (cc + i))) [1..cc]) = nat cc"
      by blast
    with Some show ?thesis by simp
  qed
qed

theorem eff_setup_ignores_client_count_witness:
  "(\<exists>usks. snd (eff_setup demo_group (\<lambda>_. 0) int
       \<lparr>gen = P1, client_count = Some 2, attr_m = None, attr_k = None\<rparr> 128 5 14378 10) = Inr usks
       \<and> length usks = 2)
   \<and> snd (eff_setup demo_group (\<lambda>_. 0) int
       \<lparr>gen = P1, client_count = None, attr_m = None, attr_k = None\<rparr> 128 5 14378 10)
     = Inl AttributeError"
proof -
  have "0 \<le> (128 :: int)" by simp
  then show ?thesis
    using eff_setup_ignores_client_count [of demo_group "\<lambda>_. 0" int
      "\<lparr>gen = P1, client_count = Some 2, attr_m = None, attr_k = None\<rparr>" 128 5 14378 10 5]
    eff_setup_ignores_client_count [of demo_group "\<lambda>_. 0" int
      "\<lparr>gen = P1, client_count = None, attr_m = None, attr_k = None\<rparr>" 128 5 14378 10 5]
    by fastforce
qed

subsection \<open>Bloom filters\<close>

lemma bitlen_nat_bound: "n < 2 ^ bitlen_nat n"
proof (induction n rule: bitlen_nat.induct)
  case (1 n)
  show ?case
  proof (cases "n = 0")
    case True
    then show ?thesis by simp
  next
    case False
    with 1 have "n div 2 < 2 ^ bitlen_nat (n div 2)" by simp
    then have "n < 2 * 2 ^ bitlen_nat (n div 2)" by linarith
    with False show ?thesis by (subst bitlen_nat.simps) simp
  qed
qed

lemma to_bytes_prefix:
  assumes "i < nat k"
  shows "to_bytes (int i) (bit_length k) = Inr (be_bytes (bit_length k) (int i))"
proof -
  have "nat \<bar>k\<bar> < 2 ^ bit_length k"
    unfolding bit_length_def by (rule bitlen_nat_bound)
  moreover have "(2::nat) ^ bit_length k \<le> 256 ^ bit_length k"
    by (rule power_mono) simp_all
  ultimately have "i < 256 ^ bit_length k" using assms by linarith
  then have "int i < 256 ^ bit_length k"
    by (metis of_nat_less_iff of_nat_numeral of_nat_power)
  then show ?thesis by (simp add: to_bytes_def)
qed

lemma bit_length_1: "bit_length 1 = 1"
  by (simp add: bit_length_def)

lemma bit_length_4: "bit_length 4 = 3"
  by (simp add: bit_length_def)

lemma small_pos_cases: "0 \<le> (p::int) \<Longrightarrow> p < 4 \<Longrightarrow> p = 0 \<or> p = 1 \<or> p = 2 \<or> p = 3"
  by arith

lemma init_4_1:
  "BloomFilter_init M 4 1 =
     Inr \<lparr>bf_m = 4, bf_k = 1, bf_bs = \<lparr>bs_l = 4, bs_bytes = [0]\<rparr>,
          bf_h = [bloom_hash (mmh3_hash M) 4 [0]]\<rparr>"
  by (simp add: BloomFilter_init_def BitString_init_def bit_length_4 bit_length_1 be_bytes_def)

lemma getitem_set_small:
  assumes "0 \<le> p" "p < 4"
  shows "bs_setitem \<lparr>bs_l = 4, bs_bytes = [0]\<rparr> p 1
           = Inr \<lparr>bs_l = 4, bs_bytes = [push_bit (nat p) 1]\<rparr>
       \<and> bs_getitem \<lparr>bs_l = 4, bs_bytes = [push_bit (nat p) 1]\<rparr> p = Inr 1
       \<and> bs_getitem \<lparr>bs_l = 4, bs_bytes = [0]\<rparr> p = Inr 0"
  using small_pos_cases [OF assms]
  by (auto simp: bs_setitem_def bs_getitem_def py_index_def Let_def)

text \<open>
  C6 fails on the code. With \<open>m = 4\<close> and \<open>k = 1\<close>, whatever the hash function and the
  element \<open>x\<close> are: the filter \<open>A\<close> that \<open>x\<close> was added to contains \<open>x\<close>, the empty filter
  \<open>B\<close> does not, and the union of \<open>A\<close> and \<open>B\<close> does not contain \<open>x\<close> either, since the loop
  of \<^verbatim>\<open>__or__\<close> runs over \<^verbatim>\<open>range(l // 8)\<close>, which is empty, and leaves the only byte 0.
\<close>

theorem union_drops_partial_byte:
  "\<exists>A B U. BloomFilter_init M 4 1 = Inr B \<and> bf_add B x = Inr A
     \<and> bf_contains A x = Inr True \<and> bf_contains B x = Inr False
     \<and> bf_union M A B = Inr U \<and> bf_contains U x = Inr False
     \<and> bs_bytes (bf_bs U) = [0]"
proof -
  define p where "p = mmh3_hash M ([0] @ x) mod 4"
  have p: "0 \<le> p" "p < 4" by (simp_all add: p_def)
  have h: "bloom_hash (mmh3_hash M) 4 [0] x = Inr p"
    by (simp add: bloom_hash_def p_def)
  note gs = getitem_set_small [OF p]
  let ?B = "\<lparr>bf_m = 4, bf_k = 1, bf_bs = \<lparr>bs_l = 4, bs_bytes = [0]\<rparr>,
          bf_h = [bloom_hash (mmh3_hash M) 4 [0]]\<rparr>"
  let ?A = "?B\<lparr>bf_bs := \<lparr>bs_l = 4, bs_bytes = [push_bit (nat p) 1]\<rparr>\<rparr>"
  have 1: "BloomFilter_init M 4 1 = Inr ?B" by (rule init_4_1)
  have 2: "bf_add ?B x = Inr ?A"
    using gs by (simp add: bf_add_def h)
  have 3: "bf_contains ?A x = Inr True"
    using gs by (simp add: bf_contains_def h)
  have 4: "bf_contains ?B x = Inr False"
    using gs by (simp add: bf_contains_def h)
  have 5: "bf_union M ?A ?B = Inr ?B"
    by (simp add: bf_union_def bf_empty_def init_4_1 bs_or_def bs_combine_def BitString_init_def)
  show ?thesis
    using 1 2 3 4 5 by (intro exI [of _ ?A] exI [of _ ?B]) simp
qed

subsection \<open>Errors of the threshold evaluation\<close>

lemma common_keys_present:
  assumes "k \<in> set (common_keys d0 d1)"
  shows "\<exists>v w. dict_get d0 k = Inr v \<and> dict_get d1 k = Inr w"
proof -
  from assms have "k \<in> fst ` set d0" and "k \<in> fst ` set d1"
    by (auto simp: common_keys_def)
  then have "map_of d0 k \<noteq> None" and "map_of d1 k \<noteq> None"
    by (simp_all add: map_of_eq_None_iff)
  then show ?thesis by (auto simp: dict_get_def)
qed

lemma th_points_common:
  assumes "set ks \<subseteq> set (common_keys d0 d1)"
  shows "\<exists>ps. th_points G d0 d1 ks = Inr ps \<and> length ps = length ks"
  using assms
proof (induction ks)
  case Nil
  then show ?case by simp
next
  case (Cons k ks)
  then obtain ps where ps: "th_points G d0 d1 ks = Inr ps" "length ps = length ks" by auto
  from Cons.prems obtain v w where "dict_get d0 k = Inr v" "dict_get d1 k = Inr w"
    using common_keys_present [of k d0 d1] by auto
  with ps show ?case by (cases v; cases w) simp
qed

lemma length_be_bytes: "length (be_bytes n i) = n"
  by (simp add: be_bytes_def)

lemma length_sha256_digest: "length (sha256_digest C x) = 32"
  by (simp add: sha256_digest_def length_be_bytes)

lemma length_H_key: "length (H_key C ser) = 16"
  by (simp add: H_key_def length_sha256_digest)

lemma length_H_nonce: "length (take 12 (H_bytes C ser)) = 12"
  by (simp add: H_bytes_def length_sha256_digest)

lemma ae_decrypt_error:
  "ae_decrypt C key nonce ct = Inl e \<Longrightarrow> e = InvalidTag \<or> e = ValueError"
  by (auto simp: ae_decrypt_def split: if_splits option.splits)

lemma ae_decrypt_encrypt:
  assumes "aead_laws C" and "8 \<le> length nonce" and "length nonce \<le> 128"
  shows "ae_decrypt C key nonce (gcm_encrypt C key nonce pt) = Inr pt"
  using assms by (simp add: ae_decrypt_def aead_laws_def)

lemma th_recover_unfold:
  assumes "dict_get d0 k = Inr (a, (n1, c1), (n4, c4))" "dict_get d1 k = Inr (b, (n2, c2), (n5, c5))"
  shows "th_recover G C d0 d1 key k =
     (case ae_decrypt C key n1 c1 of
        Inl e \<Rightarrow> Inl e
      | Inr p1 \<Rightarrow>
     (case ae_decrypt C key n2 c2 of
        Inl e \<Rightarrow> Inl e
      | Inr p2 \<Rightarrow>
          ae_decrypt C (H_key C (g_serialize G (g_mul G (g_deserialize G p1) (g_deserialize G p2)))) n4 c4))"
  using assms by (simp add: th_recover_def Let_def split: sum.splits)

lemma th_recover_error:
  assumes "k \<in> set (common_keys d0 d1)" and "th_recover G C d0 d1 key k = Inl e"
  shows "e = InvalidTag \<or> e = ValueError"
proof -
  from common_keys_present [OF assms(1)]
  obtain v w where vw: "dict_get d0 k = Inr v" "dict_get d1 k = Inr w"
    by blast
  obtain a n1 c1 n4 c4 where v: "v = (a, (n1, c1), (n4, c4))" by (cases v) auto
  obtain b n2 c2 n5 c5 where w: "w = (b, (n2, c2), (n5, c5))" by (cases w) auto
  note u = th_recover_unfold [OF vw(1) [unfolded v] vw(2) [unfolded w], of G C key]
  from assms(2) show ?thesis
    unfolding u by (auto split: sum.splits dest: ae_decrypt_error)
qed

lemma th_eval_loop_first_failure:
  assumes "\<forall>k' \<in> set ks. \<exists>pt. th_recover G C d0 d1 key k' = Inr pt"
    and "th_recover G C d0 d1 key k = Inl e"
  shows "th_eval_loop G C d0 d1 key (ks @ k # ks') acc = Inl e"
  using assms(1)
proof (induction ks arbitrary: acc)
  case Nil
  from assms(2) show ?case by simp
next
  case (Cons k' ks)
  then obtain pt where "th_recover G C d0 d1 key k' = Inr pt" by auto
  with Cons show ?case by simp
qed

lemma th_eval_loop_succeeds:
  assumes "\<forall>k \<in> set ks. \<exists>pt. th_recover G C d0 d1 key k = Inr pt"
  shows "\<exists>pts. th_eval_loop G C d0 d1 key ks acc = Inr pts
           \<and> set pts = set acc \<union> {pt. \<exists>k \<in> set ks. th_recover G C d0 d1 key k = Inr pt}"
  using assms
proof (induction ks arbitrary: acc)
  case Nil
  then show ?case by simp
next
  case (Cons k ks)
  then obtain pt where pt: "th_recover G C d0 d1 key k = Inr pt" by auto
  from Cons.prems have "\<forall>k \<in> set ks. \<exists>pt. th_recover G C d0 d1 key k = Inr pt" by simp
  from Cons.IH [OF this, of "set_add pt acc"]
  obtain pts where pts: "th_eval_loop G C d0 d1 key ks (set_add pt acc) = Inr pts"
    "set pts = set (set_add pt acc)
       \<union> {pt. \<exists>k \<in> set ks. th_recover G C d0 d1 key k = Inr pt}"
    by blast
  have "set pts = set acc \<union> {p. \<exists>k' \<in> set (k # ks). th_recover G C d0 d1 key k' = Inr p}"
    unfolding pts(2) using pt by (auto simp: set_add_def)
  with pts(1) pt show ?case by simp
qed

text \<open>
  C8, as the code has it. Let the threshold be \<open>t \<ge> 1\<close>, and let \<open>order\<close> arrange the
  common keys in the sequence in which Python iterates them. Below the threshold
  \<^verbatim>\<open>eval\<close> returns the cardinality with the empty set. From the threshold on, the
  interpolation points of the first \<open>t\<close> keys are always found, and they fix the key of
  the first authenticated cipher. Under that key, if the recovery fails at some common
  key, and has succeeded at the keys before it, then \<^verbatim>\<open>eval\<close> raises the exception of
  that failure and returns nothing, the cardinality included: \<^verbatim>\<open>InvalidTag\<close> for a tag
  that does not verify, \<^verbatim>\<open>ValueError\<close> for a nonce of a wrong length. Only if the recovery
  succeeds at every common key does \<^verbatim>\<open>eval\<close> return the cardinality, and then together
  with exactly the recovered plaintexts.
\<close>

theorem th_eval_auth_failure:
  assumes "t_threshold self = Some t" and "1 \<le> t"
    and "set (order (common_keys d0 d1)) = set (common_keys d0 d1)"
    and "length (order (common_keys d0 d1)) = length (common_keys d0 d1)"
  shows "(int (length (common_keys d0 d1)) < t \<longrightarrow>
            th_eval G C self order (d0 # d1 # rest)
              = Inr (int (length (common_keys d0 d1)), []))
     \<and> (t \<le> int (length (common_keys d0 d1)) \<longrightarrow>
          (\<exists>ps. th_points G d0 d1 (take (nat t) (order (common_keys d0 d1))) = Inr ps
             \<and> (\<forall>ks k ks' e.
                   order (common_keys d0 d1) = ks @ k # ks'
                   \<and> (\<forall>k' \<in> set ks. \<exists>pt.
                         th_recover G C d0 d1
                           (H_key C (zr_serialize G (lagrange_c0 (g_order G) ps))) k' = Inr pt)
                   \<and> th_recover G C d0 d1
                       (H_key C (zr_serialize G (lagrange_c0 (g_order G) ps))) k = Inl e
                 \<longrightarrow> (e = InvalidTag \<or> e = ValueError)
                     \<and> th_eval G C self order (d0 # d1 # rest) = Inl e)
             \<and> ((\<forall>k \<in> set (common_keys d0 d1). \<exists>pt.
                    th_recover G C d0 d1
                      (H_key C (zr_serialize G (lagrange_c0 (g_order G) ps))) k = Inr pt)
                 \<longrightarrow> (\<exists>pts. th_eval G C self order (d0 # d1 # rest)
                               = Inr (int (length (common_keys d0 d1)), pts)
                          \<and> set pts = {pt. \<exists>k \<in> set (common_keys d0 d1).
                                th_recover G C d0 d1
                                  (H_key C (zr_serialize G (lagrange_c0 (g_order G) ps))) k
                                = Inr pt}))))"
proof (intro conjI impI)
  assume "int (length (common_keys d0 d1)) < t"
  with assms(4) have "int (length (order (common_keys d0 d1))) < t" by simp
  with assms(1) have "th_eval G C self order (d0 # d1 # rest)
      = Inr (int (length (order (common_keys d0 d1))), [])"
    by (simp add: th_eval_def Let_def)
  then show "th_eval G C self order (d0 # d1 # rest)
      = Inr (int (length (common_keys d0 d1)), [])"
    by (simp only: assms(4))
next
  assume le: "t \<le> int (length (common_keys d0 d1))"
  let ?ck = "order (common_keys d0 d1)"
  have "set (take (nat t) ?ck) \<subseteq> set ?ck" by (rule set_take_subset)
  with assms(3) have "set (take (nat t) ?ck) \<subseteq> set (common_keys d0 d1)" by simp
  then obtain ps where ps: "th_points G d0 d1 (take (nat t) ?ck) = Inr ps"
    using th_points_common by blast
  let ?key = "H_key C (zr_serialize G (lagrange_c0 (g_order G) ps))"
  from le assms(4) have le': "t \<le> int (length ?ck)" by simp
  have "th_eval G C self order (d0 # d1 # rest) =
              (case th_eval_loop G C d0 d1 ?key ?ck [] of
                 Inl e \<Rightarrow> Inl e
               | Inr pts \<Rightarrow> Inr (int (length ?ck), pts))"
    using assms(1,2) le' ps by (simp add: th_eval_def Let_def)
  then have ev: "th_eval G C self order (d0 # d1 # rest) =
              (case th_eval_loop G C d0 d1 ?key ?ck [] of
                 Inl e \<Rightarrow> Inl e
               | Inr pts \<Rightarrow> Inr (int (length (common_keys d0 d1)), pts))"
    by (simp only: assms(4))
  have fail: "(e = InvalidTag \<or> e = ValueError)
        \<and> th_eval G C self order (d0 # d1 # rest) = Inl e"
    if "?ck = ks @ k # ks'"
      and "\<forall>k' \<in> set ks. \<exists>pt. th_recover G C d0 d1 ?key k' = Inr pt"
      and "th_recover G C d0 d1 ?key k = Inl e" for ks k ks' e
  proof -
    from that(1) have "k \<in> set ?ck" by simp
    with assms(3) have "k \<in> set (common_keys d0 d1)" by simp
    from th_recover_error [OF this that(3)] have "e = InvalidTag \<or> e = ValueError" .
    moreover have "th_eval_loop G C d0 d1 ?key ?ck [] = Inl e"
      unfolding that(1) by (rule th_eval_loop_first_failure [OF that(2,3)])
    ultimately show ?thesis by (simp add: ev)
  qed
  have ok: "\<exists>pts. th_eval G C self order (d0 # d1 # rest)
                = Inr (int (length (common_keys d0 d1)), pts)
          \<and> set pts = {pt. \<exists>k \<in> set (common_keys d0 d1). th_recover G C d0 d1 ?key k = Inr pt}"
    if a: "\<forall>k \<in> set (common_keys d0 d1). \<exists>pt. th_recover G C d0 d1 ?key k = Inr pt"
  proof -
    from a assms(3) have "\<forall>k \<in> set ?ck. \<exists>pt. th_recover G C d0 d1 ?key k = Inr pt" by simp
    from th_eval_loop_succeeds [OF this, of "[]"]
    obtain pts where pts: "th_eval_loop G C d0 d1 ?key ?ck [] = Inr pts"
      "set pts = set [] \<union> {pt. \<exists>k \<in> set ?ck. th_recover G C d0 d1 ?key k = Inr pt}"
      by blast
    from pts(2) assms(3)
    have "set pts = {pt. \<exists>k \<in> set (common_keys d0 d1). th_recover G C d0 d1 ?key k = Inr pt}"
      by simp
    with pts(1) show ?thesis by (simp add: ev)
  qed
  from ps fail ok
  show "\<exists>ps. th_points G d0 d1 (take (nat t) (order (common_keys d0 d1))) = Inr ps
             \<and> (\<forall>ks k ks' e.
                   order (common_keys d0 d1) = ks @ k # ks'
                   \<and> (\<forall>k' \<in> set ks. \<exists>pt.
                         th_recover G C d0 d1
                           (H_key C (zr_serialize G (lagrange_c0 (g_order G) ps))) k' = Inr pt)
                   \<and> th_recover G C d0 d1
                       (H_key C (zr_serialize G (lagrange_c0 (g_order G) ps))) k = Inl e
                 \<longrightarrow> (e = InvalidTag \<or> e = ValueError)
                     \<and> th_eval G C self order (d0 # d1 # rest) = Inl e)
             \<and> ((\<forall>k \<in> set (common_keys d0 d1). \<exists>pt.
                    th_recover G C d0 d1
                      (H_key C (zr_serialize G (lagrange_c0 (g_order G) ps))) k = Inr pt)
                 \<longrightarrow> (\<exists>pts. th_eval G C self order (d0 # d1 # rest)
                               = Inr (int (length (common_keys d0 d1)), pts)
                          \<and> set pts = {pt. \<exists>k \<in> set (common_keys d0 d1).
                                th_recover G C d0 d1
                                  (H_key C (zr_serialize G (lagrange_c0 (g_order G) ps))) k
                                = Inr pt}))"
    by blast
qed

lemma demo_th_setup:
  "th_setup demo_group (\<lambda>i. word_of_nat (i div 16 + 1)) (\<lambda>i. if i = 0 then 3 else 1)
     \<lparr>t_gen = P1, t_secpar = None, t_threshold = None, t_ff_order = None\<rparr> 128 2
   = (demo_th_self, Inr (demo_usk0, demo_usk1))"
  by code_simp

lemma demo_th_encrypt0:
  "th_encrypt demo_group demo_crypto word_of_nat demo_th_self demo_usk0 (replicate 16 0) [[5], [6]]
     = Inr demo_d0"
  by code_simp

lemma demo_th_encrypt1:
  "th_encrypt demo_group demo_crypto word_of_nat demo_th_self demo_usk1 (replicate 16 0) [[6], [5]]
     = Inr demo_d1"
  by code_simp

theorem th_eval_auth_failure_witness:
  "th_eval demo_group demo_crypto demo_th_self rev [demo_d0, tamper [2] demo_d1] = Inl InvalidTag
   \<and> (\<exists>pts. th_eval demo_group demo_crypto demo_th_self rev [demo_d0, demo_d1] = Inr (2, pts)
          \<and> set pts = {[5], [6]})
   \<and> th_eval demo_group demo_crypto (demo_th_self\<lparr>t_threshold := Some 3\<rparr>) rev [demo_d0, demo_d1]
       = Inr (2, [])"
proof (intro conjI)
  let ?d1 = "tamper [2] demo_d1"
  let ?key = "H_key demo_crypto (zr_serialize demo_group
                (lagrange_c0 (g_order demo_group) [(4, 1), (2, 1)]))"
  have t: "t_threshold demo_th_self = Some 2" "(1 :: int) \<le> 2"
    by (simp_all add: demo_th_self_def)
  have ck: "common_keys demo_d0 ?d1 = [[2], [4]]" by code_simp
  have o: "set (rev (common_keys demo_d0 ?d1)) = set (common_keys demo_d0 ?d1)"
    "length (rev (common_keys demo_d0 ?d1)) = length (common_keys demo_d0 ?d1)"
    by simp_all
  have le: "2 \<le> int (length (common_keys demo_d0 ?d1))" by (simp add: ck)
  from th_eval_auth_failure [where order = rev and G = demo_group and C = demo_crypto
      and rest = "[]" and ?d0.0 = demo_d0 and ?d1.0 = "tamper [2] demo_d1", OF t o] le
  obtain ps where ps: "th_points demo_group demo_d0 ?d1 (take (nat 2) (rev (common_keys demo_d0 ?d1)))
        = Inr ps"
    and fail: "\<And>ks k ks' e. rev (common_keys demo_d0 ?d1) = ks @ k # ks' \<Longrightarrow>
         \<forall>k' \<in> set ks. \<exists>pt. th_recover demo_group demo_crypto demo_d0 ?d1
              (H_key demo_crypto (zr_serialize demo_group (lagrange_c0 (g_order demo_group) ps))) k'
              = Inr pt \<Longrightarrow>
         th_recover demo_group demo_crypto demo_d0 ?d1
              (H_key demo_crypto (zr_serialize demo_group (lagrange_c0 (g_order demo_group) ps))) k
              = Inl e \<Longrightarrow>
         th_eval demo_group demo_crypto demo_th_self rev [demo_d0, ?d1] = Inl e"
    by blast
  have "th_points demo_group demo_d0 ?d1 (take (nat 2) (rev (common_keys demo_d0 ?d1)))
        = Inr [(4, 1), (2, 1)]"
    by code_simp
  with ps have ps': "ps = [(4, 1), (2, 1)]" by simp
  have r4: "th_recover demo_group demo_crypto demo_d0 ?d1 ?key [4] = Inr [6]" by code_simp
  have r2: "th_recover demo_group demo_crypto demo_d0 ?d1 ?key [2] = Inl InvalidTag" by code_simp
  have sp: "rev (common_keys demo_d0 ?d1) = [[4]] @ [2] # []" by (simp add: ck)
  show "th_eval demo_group demo_crypto demo_th_self rev [demo_d0, ?d1] = Inl InvalidTag"
    by (rule fail [OF sp]) (simp_all add: ps' r4 r2)
next
  let ?key = "H_key demo_crypto (zr_serialize demo_group
                (lagrange_c0 (g_order demo_group) [(4, 1), (2, 1)]))"
  have t: "t_threshold demo_th_self = Some 2" "(1 :: int) \<le> 2"
    by (simp_all add: demo_th_self_def)
  have ck: "common_keys demo_d0 demo_d1 = [[2], [4]]" by code_simp
  have o: "set (rev (common_keys demo_d0 demo_d1)) = set (common_keys demo_d0 demo_d1)"
    "length (rev (common_keys demo_d0 demo_d1)) = length (common_keys demo_d0 demo_d1)"
    by simp_all
  have le: "2 \<le> int (length (common_keys demo_d0 demo_d1))" by (simp add: ck)
  from th_eval_auth_failure [where order = rev and G = demo_group and C = demo_crypto
      and rest = "[]" and ?d0.0 = demo_d0 and ?d1.0 = demo_d1, OF t o] le
  obtain ps where ps: "th_points demo_group demo_d0 demo_d1
          (take (nat 2) (rev (common_keys demo_d0 demo_d1))) = Inr ps"
    and ok: "\<forall>k \<in> set (common_keys demo_d0 demo_d1). \<exists>pt.
          th_recover demo_group demo_crypto demo_d0 demo_d1
            (H_key demo_crypto (zr_serialize demo_group (lagrange_c0 (g_order demo_group) ps))) k
            = Inr pt \<Longrightarrow>
        \<exists>pts. th_eval demo_group demo_crypto demo_th_self rev [demo_d0, demo_d1]
                 = Inr (int (length (common_keys demo_d0 demo_d1)), pts)
            \<and> set pts = {pt. \<exists>k \<in> set (common_keys demo_d0 demo_d1).
                 th_recover demo_group demo_crypto demo_d0 demo_d1
                   (H_key demo_crypto (zr_serialize demo_group
                      (lagrange_c0 (g_order demo_group) ps))) k = Inr pt}"
    by blast
  have "th_points demo_group demo_d0 demo_d1 (take (nat 2) (rev (common_keys demo_d0 demo_d1)))
        = Inr [(4, 1), (2, 1)]"
    by code_simp
  with ps have ps': "ps = [(4, 1), (2, 1)]" by simp
  have r4: "th_recover demo_group demo_crypto demo_d0 demo_d1 ?key [4] = Inr [6]" by code_simp
  have r2: "th_recover demo_group demo_crypto demo_d0 demo_d1 ?key [2] = Inr [5]" by code_simp
  have "\<exists>pts. th_eval demo_group demo_crypto demo_th_self rev [demo_d0, demo_d1]
                 = Inr (int (length (common_keys demo_d0 demo_d1)), pts)
            \<and> set pts = {pt. \<exists>k \<in> set (common_keys demo_d0 demo_d1).
                 th_recover demo_group demo_crypto demo_d0 demo_d1
                   (H_key demo_crypto (zr_serialize demo_group
                      (lagrange_c0 (g_order demo_group) ps))) k = Inr pt}"
    by (rule ok) (simp add: ck ps' r4 r2)
  then show "\<exists>pts. th_eval demo_group demo_crypto demo_th_self rev [demo_d0, demo_d1] = Inr (2, pts)
          \<and> set pts = {[5], [6]}"
    by (auto simp: ck ps' r4 r2)
next
  let ?self = "demo_th_self\<lparr>t_threshold := Some 3\<rparr>"
  have t: "t_threshold ?self = Some 3" "(1 :: int) \<le> 3" by simp_all
  have ck: "common_keys demo_d0 demo_d1 = [[2], [4]]" by code_simp
  have o: "set (rev (common_keys demo_d0 demo_d1)) = set (common_keys demo_d0 demo_d1)"
    "length (rev (common_keys demo_d0 demo_d1)) = length (common_keys demo_d0 demo_d1)"
    by simp_all
  have lt: "int (length (common_keys demo_d0 demo_d1)) < 3" by (simp add: ck)
  from th_eval_auth_failure [where order = rev and G = demo_group and C = demo_crypto
      and rest = "[]" and ?d0.0 = demo_d0 and ?d1.0 = demo_d1, OF t o] lt
  show "th_eval demo_group demo_crypto ?self rev [demo_d0, demo_d1] = Inr (2, [])"
    by (simp add: ck)
qed

text \<open>
  C8, as the claim has it, fails. The two clients encrypt the set
  \<open>{b"\\x05", b"\\x06"}\<close> with the threshold 2, and the ciphertext of the share that the
  second client stored under the key \<open>b"\\x02"\<close> is changed in one byte of its tag. The
  two dictionaries have two keys in common, so that the threshold is reached and the
  cardinality 2 is determined; the tag does not verify in the recovery, and in both
  orders in which the two common keys can be iterated \<^verbatim>\<open>eval\<close> raises \<^verbatim>\<open>InvalidTag\<close>: the
  caller receives no cardinality.
\<close>

theorem th_eval_no_cardinality_counterexample:
  "th_setup demo_group (\<lambda>i. word_of_nat (i div 16 + 1)) (\<lambda>i. if i = 0 then 3 else 1)
     \<lparr>t_gen = P1, t_secpar = None, t_threshold = None, t_ff_order = None\<rparr> 128 2
     = (demo_th_self, Inr (demo_usk0, demo_usk1))
   \<and> th_encrypt demo_group demo_crypto word_of_nat demo_th_self demo_usk0 (replicate 16 0)
         [[5], [6]] = Inr demo_d0
   \<and> th_encrypt demo_group demo_crypto word_of_nat demo_th_self demo_usk1 (replicate 16 0)
         [[6], [5]] = Inr demo_d1
   \<and> t_threshold demo_th_self = Some 2
   \<and> int (length (common_keys demo_d0 (tamper [2] demo_d1))) = 2
   \<and> th_eval demo_group demo_crypto demo_th_self (\<lambda>ks. ks) [demo_d0, tamper [2] demo_d1]
       = Inl InvalidTag
   \<and> th_eval demo_group demo_crypto demo_th_self rev [demo_d0, tamper [2] demo_d1]
       = Inl InvalidTag"
proof -
  have "int (length (common_keys demo_d0 (tamper [2] demo_d1))) = 2
   \<and> th_eval demo_group demo_crypto demo_th_self (\<lambda>ks. ks) [demo_d0, tamper [2] demo_d1]
       = Inl InvalidTag
   \<and> th_eval demo_group demo_crypto demo_th_self rev [demo_d0, tamper [2] demo_d1]
       = Inl InvalidTag"
    by code_simp
  moreover have "t_threshold demo_th_self = Some 2" by (simp add: demo_th_self_def)
  ultimately show ?thesis
    using demo_th_setup demo_th_encrypt0 demo_th_encrypt1 by simp
qed

subsection \<open>Determinism of encryption\<close>

lemma tc_encrypt_set:
  assumes "set pts = set pts'"
  shows "map_sum id set (tc_encrypt C usk gid pts) = map_sum id set (tc_encrypt C usk gid pts')"
proof (cases "new_cipher (aes_cbc C) usk gid")
  case (Inl e)
  then show ?thesis by (simp add: tc_encrypt_def)
next
  case (Inr cipher)
  have "prf_aes cipher ` set pts = prf_aes cipher ` set pts'" using assms by simp
  with Inr show ?thesis by (simp add: tc_encrypt_def)
qed

lemma mc_encrypt_set:
  assumes "set pts = set pts'"
  shows "set (mc_encrypt G usk gid pts) = set (mc_encrypt G usk gid pts')"
  using assms by (simp add: mc_encrypt_def)

lemma assign_loop_Nil: "assign_loop f d0 [] = d0"
  by (simp add: assign_loop_def)

lemma assign_loop_Cons:
  "assign_loop f d0 (pt # pts) = assign_loop f (AList.update (fst (f pt)) (snd (f pt)) d0) pts"
  by (simp add: assign_loop_def split: prod.splits)

lemma assign_loop_absent:
  assumes "\<forall>y \<in> set pts. fst (f y) \<noteq> k"
  shows "map_of (assign_loop f d0 pts) k = map_of d0 k"
  using assms
proof (induction pts arbitrary: d0)
  case Nil
  then show ?case by (simp add: assign_loop_Nil)
next
  case (Cons y ys)
  then have "map_of (assign_loop f (AList.update (fst (f y)) (snd (f y)) d0) ys) k
           = map_of (AList.update (fst (f y)) (snd (f y)) d0) k"
    by simp
  also have "\<dots> = map_of d0 k"
    using Cons.prems by (auto simp: update_conv')
  finally show ?case by (simp add: assign_loop_Cons)
qed

lemma assign_loop_present:
  assumes "x \<in> set pts \<or> map_of d0 (fst (f x)) = Some (snd (f x))"
    and "\<forall>y \<in> set pts. fst (f y) = fst (f x) \<longrightarrow> y = x"
  shows "map_of (assign_loop f d0 pts) (fst (f x)) = Some (snd (f x))"
  using assms
proof (induction pts arbitrary: d0)
  case Nil
  then show ?case by (simp add: assign_loop_Nil)
next
  case (Cons y ys)
  let ?d = "AList.update (fst (f y)) (snd (f y)) d0"
  have "x \<in> set ys \<or> map_of ?d (fst (f x)) = Some (snd (f x))"
  proof (cases "fst (f y) = fst (f x)")
    case True
    with Cons.prems(2) have "y = x" by simp
    then show ?thesis by (simp add: update_conv')
  next
    case False
    with Cons.prems(1) show ?thesis by (auto simp: update_conv')
  qed
  moreover have "\<forall>z \<in> set ys. fst (f z) = fst (f x) \<longrightarrow> z = x"
    using Cons.prems(2) by simp
  ultimately have "map_of (assign_loop f ?d ys) (fst (f x)) = Some (snd (f x))"
    by (rule Cons.IH)
  then show ?case by (simp add: assign_loop_Cons)
qed

lemma assign_loop_order:
  assumes "set pts = set pts'" and "inj_on (\<lambda>pt. fst (f pt)) (set pts)"
  shows "map_of (assign_loop f [] pts) = map_of (assign_loop f [] pts')"
proof
  fix k
  show "map_of (assign_loop f [] pts) k = map_of (assign_loop f [] pts') k"
  proof (cases "\<exists>x \<in> set pts. fst (f x) = k")
    case True
    then obtain x where x: "x \<in> set pts" "fst (f x) = k" by blast
    have u: "\<forall>y \<in> set pts. fst (f y) = fst (f x) \<longrightarrow> y = x"
      using assms(2) x(1) by (auto dest: inj_onD)
    then have u': "\<forall>y \<in> set pts'. fst (f y) = fst (f x) \<longrightarrow> y = x"
      using assms(1) by simp
    from x(1) have x': "x \<in> set pts'" using assms(1) by simp
    have "map_of (assign_loop f [] pts) (fst (f x)) = Some (snd (f x))"
      by (rule assign_loop_present) (use x(1) u in simp_all)
    moreover have "map_of (assign_loop f [] pts') (fst (f x)) = Some (snd (f x))"
      by (rule assign_loop_present) (use x' u' in simp_all)
    ultimately show ?thesis using x(2) by simp
  next
    case False
    then have a: "\<forall>y \<in> set pts. fst (f y) \<noteq> k" by blast
    then have b: "\<forall>y \<in> set pts'. fst (f y) \<noteq> k" using assms(1) by simp
    show ?thesis
      by (simp only: assign_loop_absent [OF a] assign_loop_absent [OF b])
  qed
qed

lemma int_encrypt_assign_loop:
  "new_cipher (aes_cbc C) msk gid = Inr cipher \<Longrightarrow>
   int_encrypt G C self (msk, sigma) gid pts
     = Inr (assign_loop (int_item G C (t_gen self) cipher sigma) [] pts)"
  by (simp add: int_encrypt_def assign_loop_def)

lemma int_encrypt_map:
  assumes "set pts = set pts'"
    and "\<forall>cipher. new_cipher (aes_cbc C) (fst usk) gid = Inr cipher \<longrightarrow>
           inj_on (\<lambda>pt. fst (int_item G C (t_gen self) cipher (snd usk) pt)) (set pts)"
  shows "map_sum id map_of (int_encrypt G C self usk gid pts)
       = map_sum id map_of (int_encrypt G C self usk gid pts')"
proof (cases usk)
  case (Pair msk sigma)
  show ?thesis
  proof (cases "new_cipher (aes_cbc C) msk gid")
    case (Inl e)
    with Pair show ?thesis by (simp add: int_encrypt_def)
  next
    case (Inr cipher)
    with assms(2) Pair
    have inj: "inj_on (\<lambda>pt. fst (int_item G C (t_gen self) cipher sigma pt)) (set pts)"
      by simp
    show ?thesis
      unfolding Pair int_encrypt_assign_loop [OF Inr]
      using assign_loop_order [OF assms(1) inj] by simp
  qed
qed

text \<open>
  C7, as the code has it, for the schemes that draw nothing from a random source. The
  plaintext set is given by the list of its elements in the order of iteration; \<open>pts\<close>
  and \<open>pts'\<close> are two orders of the same set. Scheme 1 (two-client cardinality) and
  scheme 4 (multi-client cardinality) return the same set of ciphertexts, and two calls
  of scheme 1 fail alike. Scheme 2 (two-client intersection) returns the same dictionary,
  provided no two elements of the set get the same dictionary key. Scheme 5 is not
  among them: its ciphertext depends on the points that \<^verbatim>\<open>group.random(G)\<close> returns.
\<close>

theorem encrypt_deterministic:
  assumes "set pts = set pts'"
  shows "map_sum id set (tc_encrypt C usk1 gid pts) = map_sum id set (tc_encrypt C usk1 gid pts')
     \<and> set (mc_encrypt G usk4 gid pts) = set (mc_encrypt G usk4 gid pts')
     \<and> ((\<forall>cipher. new_cipher (aes_cbc C) (fst usk2) gid = Inr cipher \<longrightarrow>
            inj_on (\<lambda>pt. fst (int_item G C (t_gen self) cipher (snd usk2) pt)) (set pts))
          \<longrightarrow> map_sum id map_of (int_encrypt G C self usk2 gid pts)
              = map_sum id map_of (int_encrypt G C self usk2 gid pts'))"
  using tc_encrypt_set [OF assms] mc_encrypt_set [OF assms] int_encrypt_map [OF assms]
  by blast

lemma demo_new_cipher:
  "length key = 16 \<Longrightarrow> length gid = 16 \<Longrightarrow>
   new_cipher (aes_cbc demo_crypto) key gid = Inr cipher \<longleftrightarrow> cipher = demo_cbc key gid"
  by (auto simp: new_cipher_def demo_crypto_def)

theorem encrypt_deterministic_witness:
  "map_sum id set (tc_encrypt demo_crypto (replicate 16 0) (replicate 16 0) [[1], [2]])
     = map_sum id set (tc_encrypt demo_crypto (replicate 16 0) (replicate 16 0) [[2], [1]])
   \<and> set (mc_encrypt demo_group 3 (replicate 16 0) [[1], [2]])
     = set (mc_encrypt demo_group 3 (replicate 16 0) [[2], [1]])
   \<and> map_sum id map_of
         (int_encrypt demo_group demo_crypto
            \<lparr>t_gen = P1, t_secpar = Some 128, t_threshold = None, t_ff_order = None\<rparr>
            (replicate 16 0, 2) (replicate 16 0) [[1], [2]])
     = map_sum id map_of
         (int_encrypt demo_group demo_crypto
            \<lparr>t_gen = P1, t_secpar = Some 128, t_threshold = None, t_ff_order = None\<rparr>
            (replicate 16 0, 2) (replicate 16 0) [[2], [1]])"
proof -
  let ?key = "replicate 16 (0 :: byte)"
  let ?self = "\<lparr>t_gen = P1, t_secpar = Some 128, t_threshold = None, t_ff_order = None\<rparr>"
  have s: "set [[1], [2 :: byte]] = set [[2], [1]]" by auto
  have ne: "fst (int_item demo_group demo_crypto P1 (demo_cbc ?key ?key) 2 [1])
          \<noteq> fst (int_item demo_group demo_crypto P1 (demo_cbc ?key ?key) 2 [2])"
    by code_simp
  have inj: "\<forall>cipher. new_cipher (aes_cbc demo_crypto) (fst (?key, 2 :: int)) ?key = Inr cipher \<longrightarrow>
          inj_on (\<lambda>pt. fst (int_item demo_group demo_crypto (t_gen ?self) cipher (snd (?key, 2 :: int)) pt))
            (set [[1], [2]])"
    using ne by (auto simp: demo_new_cipher)
  from encrypt_deterministic [OF s, of demo_crypto ?key ?key demo_group 3 "(?key, 2)" ?self] inj
  show ?thesis by blast
qed

text \<open>
  C7, as the claim has it, fails for scheme 5: the same key, group identifier and
  one-element set, encrypted with the parameters \<open>m = 1\<close> and \<open>k = 1\<close>, give two different
  ciphertexts when \<^verbatim>\<open>group.random(G)\<close> returns \<open>P1\<close> in one call and \<open>P2\<close> in the other.
\<close>

theorem eff_encrypt_randomised_counterexample:
  "eff_encrypt demo_group demo_crypto demo_mmh3 (\<lambda>_. P1)
     \<lparr>gen = P1, client_count = Some 2, attr_m = Some 1, attr_k = Some 1\<rparr>
     (replicate 16 0, 1, 2) (replicate 15 0 @ [1]) [[1]] = Inr ([P1], [[(P3, P1)]])
   \<and> eff_encrypt demo_group demo_crypto demo_mmh3 (\<lambda>_. P2)
     \<lparr>gen = P1, client_count = Some 2, attr_m = Some 1, attr_k = Some 1\<rparr>
     (replicate 16 0, 1, 2) (replicate 15 0 @ [1]) [[1]] = Inr ([P1], [[(P4, P2)]])
   \<and> (Inr ([P1], [[(P3, P1)]]) :: error + (point5 list \<times> (point5 \<times> point5) list list))
       \<noteq> Inr ([P1], [[(P4, P2)]])"
  by code_simp

subsection \<open>The stand-ins satisfy the laws\<close>

lemma point5_index_of: "point5_index (point5_of x) = x mod 5"
proof -
  have "0 \<le> x mod 5" "x mod 5 < 5" by simp_all
  then have "x mod 5 = 0 \<or> x mod 5 = 1 \<or> x mod 5 = 2 \<or> x mod 5 = 3 \<or> x mod 5 = 4"
    by arith
  then show ?thesis by (auto simp: point5_of_def)
qed

lemma point5_of_index: "point5_of (point5_index a) = a"
  by (cases a) (simp_all add: point5_of_def)

lemma point5_of_mod: "point5_of (x mod 5) = point5_of x"
  by (simp add: point5_of_def)

lemma point5_of_cong: "x mod 5 = y mod 5 \<Longrightarrow> point5_of x = point5_of y"
  by (simp add: point5_of_def)

lemma point5_index_range: "0 \<le> point5_index a \<and> point5_index a < 5"
  by (cases a) simp_all

lemma demo_group_laws: "group_laws demo_group"
proof -
  have assoc: "point5_of (point5_index (point5_of (point5_index a + point5_index b)) + point5_index c)
             = point5_of (point5_index a + point5_index (point5_of (point5_index b + point5_index c)))"
    for a b c
    by (rule point5_of_cong) (simp add: point5_index_of mod_add_left_eq mod_add_right_eq add.assoc)
  have comm: "point5_of (point5_index a + point5_index b) = point5_of (point5_index b + point5_index a)"
    for a b
    by (simp add: add.commute)
  have unit: "point5_of (point5_index (point5_of (point5_index b * 0)) + point5_index a) = a" for a b
    by (simp add: point5_index_of point5_of_index)
  have one: "point5_of (point5_index a * 1) = a" for a
    by (simp add: point5_of_index)
  have add: "point5_of (point5_index a * (x + y))
           = point5_of (point5_index (point5_of (point5_index a * x))
                        + point5_index (point5_of (point5_index a * y)))" for a x y
    by (rule point5_of_cong) (simp add: point5_index_of mod_add_eq distrib_left)
  have md: "point5_of (point5_index a * (x mod 5)) = point5_of (point5_index a * x)" for a x
    by (rule point5_of_cong) (simp add: mod_mult_right_eq)
  have "0 \<le> point5_index a" "point5_index a < 256" for a
    using point5_index_range [of a] by auto
  then have ser: "point5_of (int_from_bytes [word_of_int (point5_index a)]) = a" for a
    by (simp add: int_from_bytes_def uint_word_of_int point5_of_index)
  show ?thesis
    unfolding group_laws_def demo_group_def
    using assoc comm unit one add md ser by simp
qed

lemma length_demo_tag: "length (demo_tag key) = 16"
  by (simp add: demo_tag_def min_def)

lemma demo_aead_laws: "aead_laws demo_crypto"
  by (simp add: aead_laws_def demo_crypto_def length_demo_tag)

subsection \<open>Correctness of the two-client intersection scheme\<close>

lemma assign_loop_keys:
  "fst ` set (assign_loop f d0 pts) = fst ` set d0 \<union> (\<lambda>x. fst (f x)) ` set pts"
proof (induction pts arbitrary: d0)
  case Nil
  then show ?case by (simp add: assign_loop_Nil)
next
  case (Cons y ys)
  have "fst ` set (AList.update (fst (f y)) (snd (f y)) d0) = insert (fst (f y)) (fst ` set d0)"
    using dom_update [of "fst (f y)" "snd (f y)" d0] by (simp add: dom_map_of_conv_image_fst)
  then show ?case by (auto simp: assign_loop_Cons Cons.IH)
qed

lemma int_item_fst: "fst (int_item G C g cipher sigma pt) = int_key G C g cipher pt"
  by (simp add: int_item_def int_key_def Let_def)

lemma int_item_snd:
  "snd (int_item G C g cipher sigma pt) =
     (g_serialize G (g_pow G (phi G g cipher pt) sigma),
      (take 12 (H_bytes C (g_serialize G (phi G g cipher pt))),
       gcm_encrypt C (int_key G C g cipher pt)
         (take 12 (H_bytes C (g_serialize G (phi G g cipher pt)))) pt))"
  by (simp add: int_item_def int_key_def Let_def)

lemma int_dict_lookup:
  assumes "x \<in> set pts" and "inj_on (int_key G C g cipher) (set pts)"
  shows "dict_get (assign_loop (int_item G C g cipher sigma) [] pts) (int_key G C g cipher x)
       = Inr (snd (int_item G C g cipher sigma x))"
proof -
  let ?f = "int_item G C g cipher sigma"
  have "\<forall>y \<in> set pts. fst (?f y) = fst (?f x) \<longrightarrow> y = x"
    using assms by (auto simp: int_item_fst dest: inj_onD)
  with assms(1) have "map_of (assign_loop ?f [] pts) (fst (?f x)) = Some (snd (?f x))"
    by (intro assign_loop_present) simp_all
  then show ?thesis by (simp add: dict_get_def int_item_fst)
qed

lemma int_dict_keys:
  "fst ` set (assign_loop (int_item G C g cipher sigma) [] pts) = int_key G C g cipher ` set pts"
  by (simp add: assign_loop_keys int_item_fst)

lemma pow_shares:
  assumes "group_laws G"
  shows "g_mul G (g_deserialize G (g_serialize G (g_pow G k (zr (g_order G) r))))
           (g_deserialize G (g_serialize G (g_pow G k (zr (g_order G) (1 - zr (g_order G) r)))))
         = k"
proof -
  let ?q = "g_order G"
  from assms have ds: "\<And>a. g_deserialize G (g_serialize G a) = a"
    and add: "\<And>a x y. g_pow G a (x + y) = g_mul G (g_pow G a x) (g_pow G a y)"
    and md: "\<And>a x. g_pow G a (x mod ?q) = g_pow G a x"
    and one: "\<And>a. g_pow G a 1 = a"
    by (simp_all add: group_laws_def)
  have "g_mul G (g_pow G k (r mod ?q)) (g_pow G k ((1 - r mod ?q) mod ?q))
      = g_pow G k (r mod ?q + (1 - r mod ?q) mod ?q)"
    by (simp add: add)
  also have "\<dots> = g_pow G k ((r mod ?q + (1 - r mod ?q) mod ?q) mod ?q)"
    by (simp only: md)
  also have "(r mod ?q + (1 - r mod ?q) mod ?q) mod ?q = 1 mod ?q"
    by (simp add: mod_add_right_eq)
  also have "g_pow G k (1 mod ?q) = k"
    by (simp only: md one)
  finally show ?thesis by (simp add: ds zr_def)
qed

lemma set_set_add: "set (set_add x xs) = insert x (set xs)"
  by (auto simp: set_add_def)

lemma int_eval_step:
  assumes laws: "group_laws G" and aead: "aead_laws C"
    and inj: "inj_on (int_key G C g cipher) (set S0 \<union> set S1)"
    and x: "x \<in> set S0" "x \<in> set S1"
  shows "int_eval_loop G C
           (assign_loop (int_item G C g cipher (zr (g_order G) r)) [] S0)
           (assign_loop (int_item G C g cipher (zr (g_order G) (1 - zr (g_order G) r))) [] S1)
           (int_key G C g cipher x # ks) acc
       = int_eval_loop G C
           (assign_loop (int_item G C g cipher (zr (g_order G) r)) [] S0)
           (assign_loop (int_item G C g cipher (zr (g_order G) (1 - zr (g_order G) r))) [] S1)
           ks (set_add x acc)"
proof -
  let ?q = "g_order G"
  let ?d0 = "assign_loop (int_item G C g cipher (zr ?q r)) [] S0"
  let ?d1 = "assign_loop (int_item G C g cipher (zr ?q (1 - zr ?q r))) [] S1"
  let ?k = "phi G g cipher x"
  let ?nonce = "take 12 (H_bytes C (g_serialize G ?k))"
  have i0: "inj_on (int_key G C g cipher) (set S0)" and i1: "inj_on (int_key G C g cipher) (set S1)"
    using inj by (auto intro: inj_on_subset)
  have g0: "dict_get ?d0 (int_key G C g cipher x)
          = Inr (g_serialize G (g_pow G ?k (zr ?q r)),
                 (?nonce, gcm_encrypt C (int_key G C g cipher x) ?nonce x))"
    using int_dict_lookup [OF x(1) i0] by (simp add: int_item_snd)
  have g1: "dict_get ?d1 (int_key G C g cipher x)
          = Inr (g_serialize G (g_pow G ?k (zr ?q (1 - zr ?q r))),
                 (?nonce, gcm_encrypt C (int_key G C g cipher x) ?nonce x))"
    using int_dict_lookup [OF x(2) i1] by (simp add: int_item_snd)
  have key: "H_key C (g_serialize G
               (g_mul G (g_deserialize G (g_serialize G (g_pow G ?k (zr ?q r))))
                  (g_deserialize G (g_serialize G (g_pow G ?k (zr ?q (1 - zr ?q r)))))))
           = int_key G C g cipher x"
    by (simp only: pow_shares [OF laws] int_key_def)
  have dec: "ae_decrypt C (int_key G C g cipher x) ?nonce
               (gcm_encrypt C (int_key G C g cipher x) ?nonce x) = Inr x"
    by (rule ae_decrypt_encrypt [OF aead]) (simp_all only: length_H_nonce)
  show ?thesis
    by (simp add: g0 g1 key dec Let_def)
qed

lemma int_eval_loop_correct:
  assumes laws: "group_laws G" and aead: "aead_laws C"
    and inj: "inj_on (int_key G C g cipher) (set S0 \<union> set S1)"
    and ks: "\<forall>k \<in> set ks. \<exists>x. x \<in> set S0 \<and> x \<in> set S1 \<and> k = int_key G C g cipher x"
  shows "\<exists>pts. int_eval_loop G C
           (assign_loop (int_item G C g cipher (zr (g_order G) r)) [] S0)
           (assign_loop (int_item G C g cipher (zr (g_order G) (1 - zr (g_order G) r))) [] S1)
           ks acc = Inr pts
         \<and> set pts = set acc \<union> {x. x \<in> set S0 \<and> x \<in> set S1 \<and> int_key G C g cipher x \<in> set ks}"
  using ks
proof (induction ks arbitrary: acc)
  case Nil
  then show ?case by simp
next
  case (Cons k ks)
  then obtain x where x: "x \<in> set S0" "x \<in> set S1" "k = int_key G C g cipher x" by auto
  from Cons.prems have "\<forall>k \<in> set ks. \<exists>x. x \<in> set S0 \<and> x \<in> set S1 \<and> k = int_key G C g cipher x"
    by simp
  from Cons.IH [OF this, of "set_add x acc"]
  obtain pts where pts: "int_eval_loop G C
           (assign_loop (int_item G C g cipher (zr (g_order G) r)) [] S0)
           (assign_loop (int_item G C g cipher (zr (g_order G) (1 - zr (g_order G) r))) [] S1)
           ks (set_add x acc) = Inr pts"
    "set pts = set (set_add x acc)
       \<union> {x. x \<in> set S0 \<and> x \<in> set S1 \<and> int_key G C g cipher x \<in> set ks}"
    by blast
  have same: "int_key G C g cipher y = k \<longleftrightarrow> y = x" if "y \<in> set S0" for y
    using inj_onD [OF inj, of y x] that x by auto
  have "{y. y \<in> set S0 \<and> y \<in> set S1 \<and> int_key G C g cipher y \<in> set (k # ks)}
      = insert x {y. y \<in> set S0 \<and> y \<in> set S1 \<and> int_key G C g cipher y \<in> set ks}"
    (is "?L = insert x ?R")
  proof (rule set_eqI)
    fix y
    show "y \<in> ?L \<longleftrightarrow> y \<in> insert x ?R"
    proof (cases "y \<in> set S0")
      case True
      from same [OF True] x show ?thesis by auto
    next
      case False
      with x(1) show ?thesis by auto
    qed
  qed
  then have st: "set pts = set acc
          \<union> {y. y \<in> set S0 \<and> y \<in> set S1 \<and> int_key G C g cipher y \<in> set (k # ks)}"
    using pts(2) by (simp add: set_set_add)
  have "int_eval_loop G C
           (assign_loop (int_item G C g cipher (zr (g_order G) r)) [] S0)
           (assign_loop (int_item G C g cipher (zr (g_order G) (1 - zr (g_order G) r))) [] S1)
           (k # ks) acc = Inr pts"
    using pts(1) int_eval_step [OF laws aead inj x(1,2), of r ks acc] by (simp only: x(3))
  with st show ?case by blast
qed

lemma int_common_keys:
  assumes "inj_on (int_key G C g cipher) (set S0 \<union> set S1)"
  shows "set (common_keys (assign_loop (int_item G C g cipher s0) [] S0)
                          (assign_loop (int_item G C g cipher s1) [] S1))
       = int_key G C g cipher ` (set S0 \<inter> set S1)"
proof -
  have "int_key G C g cipher ` (set S0 \<inter> set S1)
      = int_key G C g cipher ` set S0 \<inter> int_key G C g cipher ` set S1"
    by (rule inj_on_image_Int [OF assms]) simp_all
  then show ?thesis
    by (auto simp: common_keys_def int_dict_keys)
qed

lemma int_setup_result:
  assumes "0 \<le> secpar div 8"
  shows "int_setup G ent rnd self secpar =
           (self\<lparr>t_secpar := Some secpar\<rparr>,
            Inr ((map ent [0..<nat (secpar div 8)], zr (g_order G) (rnd 0)),
                 (map ent [0..<nat (secpar div 8)],
                  zr (g_order G) (1 - zr (g_order G) (rnd 0)))))"
  using assms by (simp add: int_setup_def os_urandom_def Let_def)

lemma new_cipher_ok:
  "length key \<in> {16, 24, 32} \<Longrightarrow> length iv = 16 \<Longrightarrow> new_cipher f key iv = Inr (f key iv)"
  by (auto simp: new_cipher_def)

text \<open>
  C3, as the code has it. Let the group and the authenticated cipher satisfy their laws,
  let the key length \<^verbatim>\<open>secpar // 8\<close> be one that AES accepts and the group identifier be
  16 bytes long, and let no two plaintexts of the two sets get the same dictionary key
  (the key is derived from the zero-padded plaintext, so that two plaintexts that differ
  only in trailing zero bytes always collide). Then the run of setup, the two encryptions
  and \<^verbatim>\<open>eval\<close> returns exactly the intersection of the two plaintext sets.
\<close>

theorem int_protocol_correct:
  assumes "group_laws G" and "aead_laws C"
    and "secpar div 8 \<in> {16, 24, 32}" and "length gid = 16"
    and "inj_on (int_key G C (t_gen self) (aes_cbc C (map ent [0..<nat (secpar div 8)]) gid))
           (set S0 \<union> set S1)"
  shows "\<exists>pts. int_protocol G C ent rnd self secpar gid S0 S1 = Inr pts
             \<and> set pts = set S0 \<inter> set S1"
proof -
  let ?msk = "map ent [0..<nat (secpar div 8)]"
  let ?cipher = "aes_cbc C ?msk gid"
  let ?q = "g_order G"
  let ?g = "t_gen self"
  let ?self = "self\<lparr>t_secpar := Some secpar\<rparr>"
  let ?d0 = "assign_loop (int_item G C ?g ?cipher (zr ?q (rnd 0))) [] S0"
  let ?d1 = "assign_loop (int_item G C ?g ?cipher (zr ?q (1 - zr ?q (rnd 0)))) [] S1"
  from assms(3) have sp: "0 \<le> secpar div 8" by auto
  from assms(3) have "length ?msk \<in> {16, 24, 32}" by auto
  then have nc: "new_cipher (aes_cbc C) ?msk gid = Inr ?cipher"
    using assms(4) by (rule new_cipher_ok)
  have e0: "int_encrypt G C ?self (?msk, zr ?q (rnd 0)) gid S0 = Inr ?d0"
    using int_encrypt_assign_loop [OF nc, of G ?self] by simp
  have e1: "int_encrypt G C ?self (?msk, zr ?q (1 - zr ?q (rnd 0))) gid S1 = Inr ?d1"
    using int_encrypt_assign_loop [OF nc, of G ?self] by simp
  have run: "int_protocol G C ent rnd self secpar gid S0 S1
           = int_eval_loop G C ?d0 ?d1 (common_keys ?d0 ?d1) []"
    by (simp add: int_protocol_def int_setup_result [OF sp] e0 e1 int_eval_def)
  have ck: "set (common_keys ?d0 ?d1) = int_key G C ?g ?cipher ` (set S0 \<inter> set S1)"
    by (rule int_common_keys [OF assms(5)])
  then have "\<forall>k \<in> set (common_keys ?d0 ?d1).
               \<exists>x. x \<in> set S0 \<and> x \<in> set S1 \<and> k = int_key G C ?g ?cipher x"
    by auto
  from int_eval_loop_correct [OF assms(1,2,5) this, of "rnd 0" "[]"]
  obtain pts where pts: "int_eval_loop G C ?d0 ?d1 (common_keys ?d0 ?d1) [] = Inr pts"
    "set pts = set [] \<union> {x. x \<in> set S0 \<and> x \<in> set S1
                              \<and> int_key G C ?g ?cipher x \<in> set (common_keys ?d0 ?d1)}"
    by blast
  have "set pts = set S0 \<inter> set S1"
    unfolding pts(2) ck by auto
  with pts(1) run show ?thesis by simp
qed

theorem int_protocol_correct_witness:
  "\<exists>pts. int_protocol demo_group demo_crypto (\<lambda>_. 0) (\<lambda>_. 2)
            \<lparr>t_gen = P1, t_secpar = None, t_threshold = None, t_ff_order = None\<rparr>
            128 (replicate 16 0) [[1], [2]] [[2], [3]] = Inr pts
         \<and> set pts = set [[1], [2]] \<inter> set [[2], [3]]"
proof -
  let ?self = "\<lparr>t_gen = P1, t_secpar = None, t_threshold = None, t_ff_order = None\<rparr>"
  have "distinct (map (int_key demo_group demo_crypto P1
           (demo_cbc (map (\<lambda>_. 0) [0..<nat (128 div 8)]) (replicate 16 0))) [[1], [2], [3]])"
    by code_simp
  then have "inj_on (int_key demo_group demo_crypto P1
           (demo_cbc (map (\<lambda>_. 0) [0..<nat (128 div 8)]) (replicate 16 0))) (set [[1], [2], [3]])"
    by (simp only: distinct_map)
  moreover have "set [[1], [2 :: byte]] \<union> set [[2], [3]] = set [[1], [2], [3]]"
    by auto
  ultimately have inj: "inj_on (int_key demo_group demo_crypto (t_gen ?self)
           (aes_cbc demo_crypto (map (\<lambda>_. 0) [0..<nat (128 div 8)]) (replicate 16 0)))
           (set [[1], [2]] \<union> set [[2], [3]])"
    by (simp add: demo_crypto_def)
  have sp: "(128 :: int) div 8 \<in> {16, 24, 32}" by simp
  have lg: "length (replicate 16 (0 :: byte)) = 16" by simp
  show ?thesis
    by (rule int_protocol_correct [OF demo_group_laws demo_aead_laws sp lg inj])
qed

text \<open>
  C3, as the claim has it, fails: the sets \<open>{b"\\x01"}\<close> and \<open>{b"\\x01\\x00"}\<close> have no
  element in common, but the two plaintexts are the same after zero padding, get the
  same dictionary key, and \<^verbatim>\<open>eval\<close> returns the set \<open>{b"\\x01"}\<close>.
\<close>

theorem int_protocol_padding_counterexample:
  "int_protocol demo_group demo_crypto (\<lambda>_. 0) (\<lambda>_. 2)
     \<lparr>t_gen = P1, t_secpar = None, t_threshold = None, t_ff_order = None\<rparr>
     128 (replicate 16 0) [[1]] [[1, 0]] = Inr [[1]]
   \<and> set [[1 :: byte]] \<inter> set [[1, 0]] = {}"
proof -
  have "int_protocol demo_group demo_crypto (\<lambda>_. 0) (\<lambda>_. 2)
     \<lparr>t_gen = P1, t_secpar = None, t_threshold = None, t_ff_order = None\<rparr>
     128 (replicate 16 0) [[1]] [[1, 0]] = Inr [[1]]"
    by code_simp
  then show ?thesis by simp
qed

end
